theory Spec2Isabelle
  imports
    Main
    "HOL-Library.Char_ord"
    "HOL-Library.List_Lexorder"
    "HOL-Library.Product_Lexorder"
    "HOL-Library.Multiset"
begin

section \<open>Snapshot extraction scripts: model\<close>

text \<open>
  The two scripts \<^verbatim>\<open>extract_snapshots.py\<close> and \<^verbatim>\<open>list_ebs_snapshots.py\<close> are
  embedded as pure functions. Everything they read from outside (the remote inventory,
  the clock, the output file system) is an explicit argument; everything they raise is a
  value. Strings are byte strings (UTF-8); the order on strings is the lexicographic order
  on bytes, which on UTF-8 coincides with Python's code point order on \<^verbatim>\<open>str\<close>.
\<close>

subsection \<open>Exceptions\<close>

text \<open>
  The exception classes that occur: the two classes of the provider client that the
  scripts catch, \<^verbatim>\<open>RuntimeError\<close> raised by \<^verbatim>\<open>list_opted_in_regions\<close>, and
  \<^verbatim>\<open>OverflowError\<close> raised by \<^verbatim>\<open>datetime\<close> arithmetic that leaves the years 1..9999.
  Each carries its message, \<^verbatim>\<open>str(exc)\<close>.
\<close>

datatype exn =
    BotoCoreError string
  | ClientError string
  | RuntimeError string
  | OverflowError string

fun exn_str :: "exn \<Rightarrow> string" where
  "exn_str (BotoCoreError m) = m"
| "exn_str (ClientError m) = m"
| "exn_str (RuntimeError m) = m"
| "exn_str (OverflowError m) = m"

text \<open>\<^verbatim>\<open>except (BotoCoreError, ClientError)\<close>: the classes the clause names.\<close>

fun is_botocore :: "exn \<Rightarrow> bool" where
  "is_botocore (BotoCoreError m) = True"
| "is_botocore (ClientError m) = True"
| "is_botocore (RuntimeError m) = False"
| "is_botocore (OverflowError m) = False"

subsection \<open>Timezone-aware datetime values\<close>

text \<open>
  A \<^verbatim>\<open>datetime\<close> as Python stores it: the civil fields of the local time and the UTC
  offset of its \<^verbatim>\<open>tzinfo\<close>, here in microseconds east of UTC. The provider client parses
  every timestamp into a timezone-aware value and \<^verbatim>\<open>datetime.now(timezone.utc)\<close> is
  aware, so naive values (no \<^verbatim>\<open>tzinfo\<close>) are not part of the model. The calendar
  functions follow CPython's \<^verbatim>\<open>datetime\<close> module: the proleptic Gregorian ordinal,
  where day 1 is 0001-01-01 and day 3652059 is 9999-12-31.
\<close>

record datetime =
  year :: int
  month :: int
  day :: int
  hour :: int
  minute :: int
  second :: int
  microsecond :: int
  utcoffset :: int

definition MAXORDINAL :: int where
  "MAXORDINAL = 3652059"

definition US_PER_DAY :: int where
  "US_PER_DAY = 86400000000"

definition is_leap :: "int \<Rightarrow> bool" where
  "is_leap y = (y mod 4 = 0 \<and> (y mod 100 \<noteq> 0 \<or> y mod 400 = 0))"

definition days_before_year :: "int \<Rightarrow> int" where
  "days_before_year y = (let p = y - 1 in p * 365 + p div 4 - p div 100 + p div 400)"

definition DAYS_IN_MONTH :: "int list" where
  "DAYS_IN_MONTH = [-1, 31, 28, 31, 30, 31, 30, 31, 31, 30, 31, 30, 31]"

definition DAYS_BEFORE_MONTH :: "int list" where
  "DAYS_BEFORE_MONTH = [-1, 0, 31, 59, 90, 120, 151, 181, 212, 243, 273, 304, 334]"

definition days_in_month :: "int \<Rightarrow> int \<Rightarrow> int" where
  "days_in_month y m = (if m = 2 \<and> is_leap y then 29 else DAYS_IN_MONTH ! nat m)"

definition days_before_month :: "int \<Rightarrow> int \<Rightarrow> int" where
  "days_before_month y m = DAYS_BEFORE_MONTH ! nat m + (if m > 2 \<and> is_leap y then 1 else 0)"

definition ymd2ord :: "int \<Rightarrow> int \<Rightarrow> int \<Rightarrow> int" where
  "ymd2ord y m d = days_before_year y + days_before_month y m + d"

text \<open>
  The month and day of the \<open>n\<close>-th day (from 0) of a year: an estimate of the month
  that is exact or one too large, then the correction.
\<close>

definition month_day :: "bool \<Rightarrow> int \<Rightarrow> int \<times> int" where
  "month_day leapyear n =
     (let m = (n + 50) div 32;
          preceding = DAYS_BEFORE_MONTH ! nat m + (if m > 2 \<and> leapyear then 1 else 0)
      in if preceding > n
         then (let m' = m - 1;
                   preceding' = preceding
                     - (DAYS_IN_MONTH ! nat m' + (if m' = 2 \<and> leapyear then 1 else 0))
               in (m', n - preceding' + 1))
         else (m, n - preceding + 1))"

text \<open>
  Ordinal to (year, month, day): whole 400-year, 100-year, 4-year and 1-year cycles are
  taken off in turn; the last day of a 4-year or 400-year cycle is December 31 of the
  cycle's final (leap) year.
\<close>

definition ord2ymd :: "int \<Rightarrow> int \<times> int \<times> int" where
  "ord2ymd ordinal =
     (let n = ordinal - 1;
          n400 = n div 146097; r400 = n mod 146097;
          n100 = r400 div 36524; r100 = r400 mod 36524;
          n4 = r100 div 1461; r4 = r100 mod 1461;
          n1 = r4 div 365; r1 = r4 mod 365;
          y = n400 * 400 + 1 + n100 * 100 + n4 * 4 + n1
      in if n1 = 4 \<or> n100 = 4 then (y - 1, 12, 31)
         else (let leapyear = (n1 = 3 \<and> (n4 \<noteq> 24 \<or> n100 = 3));
                   md = month_day leapyear r1
               in (y, fst md, snd md)))"

text \<open>
  Microseconds from the start of ordinal day 0 to the local civil time of a value, and to
  the instant it denotes. Two aware values compare by their instants
  (\<^verbatim>\<open>start_time <= cutoff_dt\<close>).
\<close>

definition local_micros :: "datetime \<Rightarrow> int" where
  "local_micros dt =
     ((ymd2ord (year dt) (month dt) (day dt) * 86400
        + hour dt * 3600 + minute dt * 60 + second dt) * 1000000) + microsecond dt"

definition utc_micros :: "datetime \<Rightarrow> int" where
  "utc_micros dt = local_micros dt - utcoffset dt"

definition dt_le :: "datetime \<Rightarrow> datetime \<Rightarrow> bool" where
  "dt_le a b = (utc_micros a \<le> utc_micros b)"

definition of_micros :: "int \<Rightarrow> int \<Rightarrow> datetime" where
  "of_micros t off =
     (let days = t div US_PER_DAY; r = t mod US_PER_DAY;
          secs = r div 1000000; us = r mod 1000000;
          ymd = ord2ymd days
      in \<lparr>year = fst ymd, month = fst (snd ymd), day = snd (snd ymd),
          hour = secs div 3600, minute = secs mod 3600 div 60, second = secs mod 60,
          microsecond = us, utcoffset = off\<rparr>)"

text \<open>
  \<^verbatim>\<open>datetime + timedelta\<close>: the local fields move by \<open>delta\<close> microseconds and the
  \<^verbatim>\<open>tzinfo\<close> stays; a result outside the ordinals 1..MAXORDINAL raises.
\<close>

definition dt_add :: "datetime \<Rightarrow> int \<Rightarrow> exn + datetime" where
  "dt_add dt delta =
     (let t = local_micros dt + delta; days = t div US_PER_DAY
      in if 0 < days \<and> days \<le> MAXORDINAL then Inr (of_micros t (utcoffset dt))
         else Inl (OverflowError ''date value out of range''))"

text \<open>
  \<^verbatim>\<open>dt.astimezone(timezone.utc)\<close>: the offset is subtracted from the local time and
  the \<^verbatim>\<open>tzinfo\<close> replaced by UTC.
\<close>

definition astimezone_utc :: "datetime \<Rightarrow> exn + datetime" where
  "astimezone_utc dt =
     (case dt_add dt (- utcoffset dt) of
        Inl e \<Rightarrow> Inl e
      | Inr u \<Rightarrow> Inr (u\<lparr>utcoffset := 0\<rparr>))"

subsection \<open>strftime\<close>

text \<open>
  \<^verbatim>\<open>strftime("%Y-%m-%dT%H:%M:%SZ")\<close> is the C library's: \<^verbatim>\<open>%m %d %H %M %S\<close> are
  two digits, zero-padded, and \<^verbatim>\<open>%Y\<close> is the year in decimal with no padding (glibc
  writes the year 999 as \<^verbatim>\<open>999\<close>).
\<close>

definition digit_char :: "nat \<Rightarrow> char" where
  "digit_char n = ''0123456789'' ! n"

fun dec :: "nat \<Rightarrow> string" where
  "dec n = (if n < 10 then [digit_char n] else dec (n div 10) @ [digit_char (n mod 10)])"

declare dec.simps [simp del]

definition zfill :: "nat \<Rightarrow> string \<Rightarrow> string" where
  "zfill w s = replicate (w - length s) (CHR ''0'') @ s"

definition fmt_02d :: "int \<Rightarrow> string" where
  "fmt_02d i = zfill 2 (dec (nat i))"

definition fmt_Y :: "int \<Rightarrow> string" where
  "fmt_Y y = dec (nat y)"

definition strftime_iso :: "datetime \<Rightarrow> string" where
  "strftime_iso dt =
     fmt_Y (year dt) @ ''-'' @ fmt_02d (month dt) @ ''-'' @ fmt_02d (day dt) @ ''T''
       @ fmt_02d (hour dt) @ '':'' @ fmt_02d (minute dt) @ '':'' @ fmt_02d (second dt) @ ''Z''"

text \<open>\<^verbatim>\<open>start_time.astimezone(timezone.utc).strftime("%Y-%m-%dT%H:%M:%SZ")\<close>\<close>

definition created_utc :: "datetime \<Rightarrow> exn + string" where
  "created_utc dt =
     (case astimezone_utc dt of Inl e \<Rightarrow> Inl e | Inr u \<Rightarrow> Inr (strftime_iso u))"

subsection \<open>Provider response items\<close>

text \<open>
  What \<^verbatim>\<open>snap.get("StartTime")\<close> can return: \<^verbatim>\<open>None\<close> (the key is absent or null), a
  value of another type, or a \<^verbatim>\<open>datetime\<close>. The other fields are the strings of the
  service's response shape, \<open>None\<close> when the key is absent.
\<close>

datatype pyval = PyNone | PyStr string | PyInt int | PyDatetime datetime

record tag =
  Key :: "string option"
  Value :: "string option"

record ebs_snapshot =
  StartTime :: pyval
  Tags :: "tag list option"
  Description :: "string option"
  SnapshotId :: "string option"

record rds_snapshot =
  SnapshotCreateTime :: pyval
  TagList :: "tag list option"

record db_snapshot = rds_snapshot +
  DBSnapshotIdentifier :: "string option"

record db_cluster_snapshot = rds_snapshot +
  DBClusterSnapshotIdentifier :: "string option"

record ebs_page =
  Snapshots :: "ebs_snapshot list option"

record db_page =
  DBSnapshots :: "db_snapshot list option"

record db_cluster_page =
  DBClusterSnapshots :: "db_cluster_snapshot list option"

text \<open>\<^verbatim>\<open>page.get(key, [])\<close>\<close>

definition get_list :: "'a list option \<Rightarrow> 'a list" where
  "get_list v = (case v of None \<Rightarrow> [] | Some xs \<Rightarrow> xs)"

subsection \<open>Name resolution\<close>

text \<open>
  Python's truth value of an optional string and the \<^verbatim>\<open>or\<close> operator: \<^verbatim>\<open>None\<close> and
  the empty string are false, and \<^verbatim>\<open>a or b\<close> is \<open>a\<close> when \<open>a\<close> is true, else \<open>b\<close>.
\<close>

definition truthy :: "string option \<Rightarrow> bool" where
  "truthy v = (case v of None \<Rightarrow> False | Some s \<Rightarrow> s \<noteq> [])"

definition py_or :: "string option \<Rightarrow> string option \<Rightarrow> string option" where
  "py_or a b = (if truthy a then a else b)"

definition py_str :: "string option \<Rightarrow> string" where
  "py_str v = (case v of None \<Rightarrow> ''None'' | Some s \<Rightarrow> s)"

text \<open>
  \<^verbatim>\<open>next((t.get("Value") for t in tags if t.get("Key") == "Name"), None)\<close>: the value
  of the first tag whose key is \<^verbatim>\<open>Name\<close>.
\<close>

definition name_tag :: "tag list \<Rightarrow> string option" where
  "name_tag tags =
     (case filter (\<lambda>t. Key t = Some ''Name'') tags of [] \<Rightarrow> None | t # _ \<Rightarrow> Value t)"

text \<open>\<^verbatim>\<open>name_tag or description or snapshot_id or "<unnamed>"\<close>\<close>

definition ebs_display_name :: "ebs_snapshot \<Rightarrow> string option" where
  "ebs_display_name snap =
     py_or (py_or (py_or (name_tag (get_list (Tags snap))) (Description snap)) (SnapshotId snap))
       (Some ''<unnamed>'')"

definition db_display_name :: "db_snapshot \<Rightarrow> string option" where
  "db_display_name snap = py_or (DBSnapshotIdentifier snap) (Some ''<unnamed>'')"

definition db_cluster_display_name :: "db_cluster_snapshot \<Rightarrow> string option" where
  "db_cluster_display_name snap = py_or (DBClusterSnapshotIdentifier snap) (Some ''<unnamed>'')"

subsection \<open>Records and enumerators\<close>

record snapshot_record =
  name :: string
  created :: string

text \<open>
  A generator body run over the items of one page and over the pages of a paginator. The
  result is what the consumer (\<^verbatim>\<open>rows.extend\<close>) has received: the rows yielded, and the
  exception that ended the generator, if one did. Rows yielded before an exception stay
  with the consumer. An element \<open>Inl e\<close> of the page sequence is a request that raised.
\<close>

fun for_items :: "('a \<Rightarrow> exn + 'r option) \<Rightarrow> 'a list \<Rightarrow> 'r list \<times> exn option" where
  "for_items body [] = ([], None)"
| "for_items body (x # xs) =
     (case body x of
        Inl e \<Rightarrow> ([], Some e)
      | Inr None \<Rightarrow> for_items body xs
      | Inr (Some r) \<Rightarrow> (case for_items body xs of (rs, err) \<Rightarrow> (r # rs, err)))"

fun for_pages ::
  "('p \<Rightarrow> 'a list) \<Rightarrow> ('a \<Rightarrow> exn + 'r option) \<Rightarrow> (exn + 'p) list \<Rightarrow> 'r list \<times> exn option"
where
  "for_pages items body [] = ([], None)"
| "for_pages items body (Inl e # ps) = ([], Some e)"
| "for_pages items body (Inr p # ps) =
     (case for_items body (items p) of
        (rs, Some e) \<Rightarrow> (rs, Some e)
      | (rs, None) \<Rightarrow> (case for_pages items body ps of (rs', err) \<Rightarrow> (rs @ rs', err)))"

text \<open>The loop bodies of the three enumerators of \<^verbatim>\<open>extract_snapshots.py\<close>.\<close>

definition ebs_item :: "datetime \<Rightarrow> ebs_snapshot \<Rightarrow> exn + snapshot_record option" where
  "ebs_item cutoff_dt snap =
     (case StartTime snap of
        PyDatetime start_time \<Rightarrow>
          if dt_le start_time cutoff_dt
          then (case created_utc start_time of
                  Inl e \<Rightarrow> Inl e
                | Inr c \<Rightarrow> Inr (Some \<lparr>name = py_str (ebs_display_name snap), created = c\<rparr>))
          else Inr None
      | _ \<Rightarrow> Inr None)"

definition db_item :: "datetime \<Rightarrow> db_snapshot \<Rightarrow> exn + snapshot_record option" where
  "db_item cutoff_dt snap =
     (case SnapshotCreateTime snap of
        PyDatetime t \<Rightarrow>
          if dt_le t cutoff_dt
          then (case created_utc t of
                  Inl e \<Rightarrow> Inl e
                | Inr c \<Rightarrow> Inr (Some \<lparr>name = py_str (db_display_name snap), created = c\<rparr>))
          else Inr None
      | _ \<Rightarrow> Inr None)"

definition db_cluster_item ::
  "datetime \<Rightarrow> db_cluster_snapshot \<Rightarrow> exn + snapshot_record option" where
  "db_cluster_item cutoff_dt snap =
     (case SnapshotCreateTime snap of
        PyDatetime t \<Rightarrow>
          if dt_le t cutoff_dt
          then (case created_utc t of
                  Inl e \<Rightarrow> Inl e
                | Inr c \<Rightarrow>
                    Inr (Some \<lparr>name = py_str (db_cluster_display_name snap), created = c\<rparr>))
          else Inr None
      | _ \<Rightarrow> Inr None)"

text \<open>The three \<^verbatim>\<open>for page in page_iterator\<close> loops.\<close>

definition ebs_loop ::
  "(exn + ebs_page) list \<Rightarrow> datetime \<Rightarrow> snapshot_record list \<times> exn option" where
  "ebs_loop pages cutoff_dt =
     for_pages (\<lambda>p. get_list (Snapshots p)) (ebs_item cutoff_dt) pages"

definition db_loop ::
  "(exn + db_page) list \<Rightarrow> datetime \<Rightarrow> snapshot_record list \<times> exn option" where
  "db_loop pages cutoff_dt =
     for_pages (\<lambda>p. get_list (DBSnapshots p)) (db_item cutoff_dt) pages"

definition db_cluster_loop ::
  "(exn + db_cluster_page) list \<Rightarrow> datetime \<Rightarrow> snapshot_record list \<times> exn option" where
  "db_cluster_loop pages cutoff_dt =
     for_pages (\<lambda>p. get_list (DBClusterSnapshots p)) (db_cluster_item cutoff_dt) pages"

text \<open>
  The loop body of \<^verbatim>\<open>list_ebs_snapshots.py\<close>: no cutoff; its rows are the pairs
  \<^verbatim>\<open>(str(display_name), created_utc)\<close>.
\<close>

definition list_item :: "ebs_snapshot \<Rightarrow> exn + (string \<times> string) option" where
  "list_item snap =
     (case StartTime snap of
        PyDatetime start_time \<Rightarrow>
          (case created_utc start_time of
             Inl e \<Rightarrow> Inl e
           | Inr c \<Rightarrow> Inr (Some (py_str (ebs_display_name snap), c)))
      | _ \<Rightarrow> Inr None)"

definition list_rows :: "(exn + ebs_page) list \<Rightarrow> (string \<times> string) list \<times> exn option" where
  "list_rows pages = for_pages (\<lambda>p. get_list (Snapshots p)) list_item pages"

subsection \<open>The remote inventory and the host\<close>

text \<open>
  What the authenticated session gives the scripts: whether it can be built, its default
  region, whether a client for a service and region can be created, the region listing,
  and for each region the page sequence of each paginated operation. The host gives the
  clock and says whether the output file can be written.
\<close>

record region_info =
  RegionName :: "string option"
  OptInStatus :: "string option"

record regions_response =
  Regions :: "region_info list option"

record aws =
  session_error :: "string option"
  region_name :: "string option"
  client_error :: "string \<Rightarrow> string option \<Rightarrow> exn option"
  describe_regions :: "exn + regions_response"
  describe_snapshots :: "string \<Rightarrow> (exn + ebs_page) list"
  describe_db_snapshots :: "string \<Rightarrow> (exn + db_page) list"
  describe_db_cluster_snapshots :: "string \<Rightarrow> (exn + db_cluster_page) list"

record host =
  now_utc :: datetime
  write_error :: "string option"

text \<open>
  The three enumerators. They are generators: the client is created when the consumer
  asks for the first row, so a failure to create it ends the generator like a failed page.
\<close>

definition get_ebs_snapshots ::
  "aws \<Rightarrow> string \<Rightarrow> datetime \<Rightarrow> snapshot_record list \<times> exn option" where
  "get_ebs_snapshots session reg cutoff_dt =
     (case client_error session ''ec2'' (Some reg) of
        Some e \<Rightarrow> ([], Some e)
      | None \<Rightarrow> ebs_loop (describe_snapshots session reg) cutoff_dt)"

definition get_rds_instance_snapshots ::
  "aws \<Rightarrow> string \<Rightarrow> datetime \<Rightarrow> snapshot_record list \<times> exn option" where
  "get_rds_instance_snapshots session reg cutoff_dt =
     (case client_error session ''rds'' (Some reg) of
        Some e \<Rightarrow> ([], Some e)
      | None \<Rightarrow> db_loop (describe_db_snapshots session reg) cutoff_dt)"

definition get_rds_cluster_snapshots ::
  "aws \<Rightarrow> string \<Rightarrow> datetime \<Rightarrow> snapshot_record list \<times> exn option" where
  "get_rds_cluster_snapshots session reg cutoff_dt =
     (case client_error session ''rds'' (Some reg) of
        Some e \<Rightarrow> ([], Some e)
      | None \<Rightarrow> db_cluster_loop (describe_db_cluster_snapshots session reg) cutoff_dt)"

subsection \<open>Region resolution\<close>

text \<open>
  \<^verbatim>\<open>list_opted_in_regions\<close>: the client is created outside the \<^verbatim>\<open>try\<close>; inside it,
  a failure of the two provider classes is raised again as \<^verbatim>\<open>RuntimeError\<close>. The result
  is \<^verbatim>\<open>sorted(set(regions))\<close>.
\<close>

definition opted_in :: "region_info \<Rightarrow> string option" where
  "opted_in r =
     (if truthy (RegionName r)
         \<and> OptInStatus r \<in> {None, Some ''opt-in-not-required'', Some ''opted-in''}
      then RegionName r else None)"

definition list_opted_in_regions :: "aws \<Rightarrow> exn + string list" where
  "list_opted_in_regions session =
     (case client_error session ''ec2'' None of
        Some e \<Rightarrow> Inl e
      | None \<Rightarrow>
         (case describe_regions session of
            Inl e \<Rightarrow>
              if is_botocore e
              then Inl (RuntimeError (''Failed to list regions: '' @ exn_str e))
              else Inl e
          | Inr resp \<Rightarrow> Inr (sort (remdups (List.map_filter opted_in (get_list (Regions resp)))))))"

record args =
  profile :: "string option"
  region :: "string option"
  all_regions :: bool
  service :: string
  days :: int
  "output" :: string

text \<open>Lines 172 to 182 of \<^verbatim>\<open>main\<close>: \<open>Inl\<close> is the message of \<^verbatim>\<open>SystemExit\<close>.\<close>

definition resolve_regions :: "args \<Rightarrow> aws \<Rightarrow> string + string list" where
  "resolve_regions a session =
     (if all_regions a
      then (case list_opted_in_regions session of
              Inl e \<Rightarrow> Inl (exn_str e)
            | Inr rs \<Rightarrow> Inr rs)
      else (case py_or (region a) (region_name session) of
              None \<Rightarrow> Inl ''No region specified and no default region configured in the profile. Use --region or --all-regions.''
            | Some r \<Rightarrow>
                if r = []
                then Inl ''No region specified and no default region configured in the profile. Use --region or --all-regions.''
                else Inr [r]))"

subsection \<open>Aggregation\<close>

text \<open>
  One \<^verbatim>\<open>try: rows.extend(...) except (BotoCoreError, ClientError) as exc: print(...)\<close>.
  The state is the rows collected and the lines printed so far. The rows the generator
  yielded before it raised are already in \<^verbatim>\<open>rows\<close>; an exception of another class is
  not caught here and ends the run.
\<close>

definition warning :: "string \<Rightarrow> string \<Rightarrow> exn \<Rightarrow> string" where
  "warning what reg e =
     ''Warning: Failed to list '' @ what @ '' in '' @ reg @ '': '' @ exn_str e"

definition try_extend ::
  "string \<Rightarrow> string \<Rightarrow> snapshot_record list \<times> exn option
     \<Rightarrow> snapshot_record list \<times> string list
     \<Rightarrow> exn + (snapshot_record list \<times> string list)" where
  "try_extend what reg res st =
     (case res of
        (rs, None) \<Rightarrow> Inr (fst st @ rs, snd st)
      | (rs, Some e) \<Rightarrow>
          if is_botocore e then Inr (fst st @ rs, snd st @ [warning what reg e])
          else Inl e)"

definition region_step ::
  "aws \<Rightarrow> datetime \<Rightarrow> bool \<Rightarrow> bool \<Rightarrow> string
     \<Rightarrow> snapshot_record list \<times> string list
     \<Rightarrow> exn + (snapshot_record list \<times> string list)" where
  "region_step session cutoff_dt include_ebs include_rds reg st =
     (case (if include_ebs
            then try_extend ''EBS snapshots'' reg (get_ebs_snapshots session reg cutoff_dt) st
            else Inr st) of
        Inl e \<Rightarrow> Inl e
      | Inr st1 \<Rightarrow>
          if include_rds
          then (case try_extend ''RDS DB snapshots'' reg
                       (get_rds_instance_snapshots session reg cutoff_dt) st1 of
                  Inl e \<Rightarrow> Inl e
                | Inr st2 \<Rightarrow>
                    try_extend ''RDS cluster snapshots'' reg
                      (get_rds_cluster_snapshots session reg cutoff_dt) st2)
          else Inr st1)"

fun aggregate ::
  "aws \<Rightarrow> datetime \<Rightarrow> bool \<Rightarrow> bool \<Rightarrow> string list
     \<Rightarrow> snapshot_record list \<times> string list
     \<Rightarrow> exn + (snapshot_record list \<times> string list)" where
  "aggregate session cutoff_dt include_ebs include_rds [] st = Inr st"
| "aggregate session cutoff_dt include_ebs include_rds (reg # regs) st =
     (case region_step session cutoff_dt include_ebs include_rds reg st of
        Inl e \<Rightarrow> Inl e
      | Inr st' \<Rightarrow> aggregate session cutoff_dt include_ebs include_rds regs st')"

subsection \<open>Reporting\<close>

definition TAB :: char where
  "TAB = CHR 0x09"

definition NL :: char where
  "NL = CHR 0x0A"

text \<open>\<^verbatim>\<open>rows.sort(key=lambda r: (r["created"], r["name"]))\<close> and the write loop.\<close>

definition sort_rows :: "snapshot_record list \<Rightarrow> snapshot_record list" where
  "sort_rows rows = sort_key (\<lambda>r. (created r, name r)) rows"

definition row_line :: "snapshot_record \<Rightarrow> string" where
  "row_line r = name r @ [TAB] @ created r @ [NL]"

definition file_text :: "snapshot_record list \<Rightarrow> string" where
  "file_text rows = concat (map row_line rows)"

text \<open>The same for the pairs of \<^verbatim>\<open>list_ebs_snapshots.py\<close>: \<^verbatim>\<open>key=lambda r: (r[1], r[0])\<close>.\<close>

definition sort_pairs :: "(string \<times> string) list \<Rightarrow> (string \<times> string) list" where
  "sort_pairs rows = sort_key (\<lambda>r. (snd r, fst r)) rows"

definition pair_line :: "string \<times> string \<Rightarrow> string" where
  "pair_line r = fst r @ [TAB] @ snd r @ [NL]"

definition pairs_text :: "(string \<times> string) list \<Rightarrow> string" where
  "pairs_text rows = concat (map pair_line rows)"

subsection \<open>The two programs\<close>

text \<open>
  How a run ends: \<^verbatim>\<open>SystemExit\<close> with a message (exit status 1), an exception nobody
  caught (a traceback, exit status 1), or normally with the lines printed and the contents
  of the output file, if one was written (exit status 0).
\<close>

datatype outcome =
    SystemExit string
  | Traceback exn
  | Finished "string list" "string option"

fun exit_status :: "outcome \<Rightarrow> nat" where
  "exit_status (SystemExit m) = 1"
| "exit_status (Traceback e) = 1"
| "exit_status (Finished console file) = 0"

definition show_int :: "int \<Rightarrow> string" where
  "show_int i = (if i < 0 then ''-'' @ dec (nat (- i)) else dec (nat i))"

text \<open>
  \<^verbatim>\<open>timedelta(days=n)\<close>, in microseconds. The day count must fit a C \<^verbatim>\<open>int\<close> and
  have a magnitude of at most 999999999; each failure has its own message.
\<close>

definition timedelta_days :: "int \<Rightarrow> exn + int" where
  "timedelta_days n =
     (if \<bar>n\<bar> \<le> 999999999 then Inr (n * US_PER_DAY)
      else if - 2147483648 \<le> n \<and> n \<le> 2147483647
      then Inl (OverflowError (''days='' @ show_int n @ ''; must have magnitude <= 999999999''))
      else Inl (OverflowError ''Python int too large to convert to C int''))"

text \<open>\<^verbatim>\<open>cutoff_dt = now_utc - timedelta(days=int(args.days))\<close>\<close>

definition cutoff :: "host \<Rightarrow> int \<Rightarrow> exn + datetime" where
  "cutoff h n =
     (case timedelta_days n of
        Inl e \<Rightarrow> Inl e
      | Inr delta \<Rightarrow> dt_add (now_utc h) (- delta))"

text \<open>\<^verbatim>\<open>main\<close> of \<^verbatim>\<open>extract_snapshots.py\<close>.\<close>

definition main :: "args \<Rightarrow> aws \<Rightarrow> host \<Rightarrow> outcome" where
  "main a session h =
     (case session_error session of
        Some m \<Rightarrow> SystemExit (''Failed to create AWS session: '' @ m)
      | None \<Rightarrow>
     (case cutoff h (days a) of
        Inl e \<Rightarrow> Traceback e
      | Inr cutoff_dt \<Rightarrow>
     (case resolve_regions a session of
        Inl m \<Rightarrow> SystemExit m
      | Inr regions \<Rightarrow>
     (case aggregate session cutoff_dt
             (service a \<in> {''ebs'', ''both''}) (service a \<in> {''rds'', ''both''})
             regions ([], []) of
        Inl e \<Rightarrow> Traceback e
      | Inr (rows, console) \<Rightarrow>
     (case write_error h of
        Some m \<Rightarrow> SystemExit (''Failed to write output file '' @ output a @ '': '' @ m)
      | None \<Rightarrow>
          Finished
            (console @ [''Wrote '' @ dec (length rows) @ '' records to '' @ output a])
            (Some (file_text (sort_rows rows))))))))"

text \<open>
  \<^verbatim>\<open>main\<close> of \<^verbatim>\<open>list_ebs_snapshots.py\<close>, given \<^verbatim>\<open>--region\<close> and \<^verbatim>\<open>--output\<close>. The
  client is created outside the \<^verbatim>\<open>try\<close>; a provider failure while listing is fatal.
\<close>

definition list_main :: "string \<Rightarrow> string option \<Rightarrow> aws \<Rightarrow> host \<Rightarrow> outcome" where
  "list_main reg out session h =
     (case session_error session of
        Some m \<Rightarrow> SystemExit (''Failed to create AWS session: '' @ m)
      | None \<Rightarrow>
     (case client_error session ''ec2'' (Some reg) of
        Some e \<Rightarrow> Traceback e
      | None \<Rightarrow>
     (case list_rows (describe_snapshots session reg) of
        (rows, Some e) \<Rightarrow>
          if is_botocore e
          then SystemExit (''Failed to list EBS snapshots in '' @ reg @ '': '' @ exn_str e)
          else Traceback e
      | (rows, None) \<Rightarrow>
          (let sorted_rows = sort_pairs rows;
               printed = map (\<lambda>r. fst r @ [TAB] @ snd r) sorted_rows
           in if truthy out
              then (case write_error h of
                      Some m \<Rightarrow>
                        SystemExit (''Failed to write output file '' @ py_str out @ '': '' @ m)
                    | None \<Rightarrow>
                        Finished
                          (printed @ [''Wrote '' @ dec (length sorted_rows) @ '' records to ''
                                       @ py_str out])
                          (Some (pairs_text sorted_rows)))
              else Finished printed None))))"

subsection \<open>Reading a timestamp back\<close>

text \<open>
  The shape \<^verbatim>\<open>YYYY-MM-DDTHH:MM:SSZ\<close> the specification names, the six numbers such a
  string spells, and the second they denote, counted like \<open>local_micros\<close> from the
  start of ordinal day 0.
\<close>

definition is_digit :: "char \<Rightarrow> bool" where
  "is_digit c = (c \<in> set ''0123456789'')"

definition digit_val :: "char \<Rightarrow> nat" where
  "digit_val c = of_char c - 48"

definition parse_nat :: "string \<Rightarrow> nat" where
  "parse_nat s = foldl (\<lambda>acc c. 10 * acc + digit_val c) 0 s"

definition iso_shape :: "string \<Rightarrow> bool" where
  "iso_shape s =
     (length s = 20
      \<and> list_all is_digit (take 4 s) \<and> s ! 4 = CHR ''-''
      \<and> list_all is_digit (take 2 (drop 5 s)) \<and> s ! 7 = CHR ''-''
      \<and> list_all is_digit (take 2 (drop 8 s)) \<and> s ! 10 = CHR ''T''
      \<and> list_all is_digit (take 2 (drop 11 s)) \<and> s ! 13 = CHR '':''
      \<and> list_all is_digit (take 2 (drop 14 s)) \<and> s ! 16 = CHR '':''
      \<and> list_all is_digit (take 2 (drop 17 s)) \<and> s ! 19 = CHR ''Z'')"

definition stamp_fields :: "string \<Rightarrow> int \<times> int \<times> int \<times> int \<times> int \<times> int" where
  "stamp_fields s =
     (int (parse_nat (take 4 s)), int (parse_nat (take 2 (drop 5 s))),
      int (parse_nat (take 2 (drop 8 s))), int (parse_nat (take 2 (drop 11 s))),
      int (parse_nat (take 2 (drop 14 s))), int (parse_nat (take 2 (drop 17 s))))"

definition stamp_seconds :: "string \<Rightarrow> int" where
  "stamp_seconds s =
     (case stamp_fields s of
        (y, m, d, h, mi, sec) \<Rightarrow> ymd2ord y m d * 86400 + h * 3600 + mi * 60 + sec)"

text \<open>The dates of the calendar, and the values whose fields are all in their ranges.\<close>

definition valid_date :: "int \<Rightarrow> int \<Rightarrow> int \<Rightarrow> bool" where
  "valid_date y m d = (1 \<le> y \<and> 1 \<le> m \<and> m \<le> 12 \<and> 1 \<le> d \<and> d \<le> days_in_month y m)"

definition in_range :: "datetime \<Rightarrow> bool" where
  "in_range u =
     (valid_date (year u) (month u) (day u) \<and> year u \<le> 9999
      \<and> 0 \<le> hour u \<and> hour u < 24 \<and> 0 \<le> minute u \<and> minute u < 60
      \<and> 0 \<le> second u \<and> second u < 60 \<and> 0 \<le> microsecond u \<and> microsecond u < 1000000)"

text \<open>
  Reading the output file: its lines, each ended by a newline, and a line split at its
  last tab.
\<close>

fun split_lines :: "string \<Rightarrow> string list" where
  "split_lines [] = []"
| "split_lines (c # cs) =
     (if c = NL then [] # split_lines cs
      else (case split_lines cs of [] \<Rightarrow> [[c]] | l # ls \<Rightarrow> (c # l) # ls))"

definition rsplit_tab :: "string \<Rightarrow> string \<times> string" where
  "rsplit_tab l =
     (rev (drop 1 (dropWhile (\<lambda>c. c \<noteq> TAB) (rev l))), rev (takeWhile (\<lambda>c. c \<noteq> TAB) (rev l)))"

definition stamp_chars :: "string \<Rightarrow> bool" where
  "stamp_chars s = (set s \<subseteq> set ''0123456789-T:Z'')"


subsection \<open>Example inputs\<close>

definition noon_utc :: datetime where
  "noon_utc = \<lparr>year = 2024, month = 1, day = 15, hour = 12, minute = 0, second = 0,
                microsecond = 0, utcoffset = 0\<rparr>"

text \<open>A tag \<^verbatim>\<open>Name\<close> whose value is the empty string, beside a description.\<close>

definition blank_tag_snapshot :: ebs_snapshot where
  "blank_tag_snapshot =
     \<lparr>StartTime = PyDatetime noon_utc,
      Tags = Some [\<lparr>Key = Some ''Name'', Value = Some ''''\<rparr>],
      Description = Some ''nightly backup'',
      SnapshotId = Some ''snap-123''\<rparr>"

definition tagged_snapshot :: ebs_snapshot where
  "tagged_snapshot =
     \<lparr>StartTime = PyDatetime noon_utc,
      Tags = Some [\<lparr>Key = Some ''Owner'', Value = Some ''ops''\<rparr>,
                   \<lparr>Key = Some ''Name'', Value = Some ''backup-a''\<rparr>],
      Description = Some ''nightly backup'',
      SnapshotId = Some ''snap-123''\<rparr>"

definition described_snapshot :: ebs_snapshot where
  "described_snapshot =
     \<lparr>StartTime = PyDatetime noon_utc, Tags = None,
      Description = Some ''nightly backup'', SnapshotId = Some ''snap-123''\<rparr>"

definition bare_snapshot :: ebs_snapshot where
  "bare_snapshot =
     \<lparr>StartTime = PyDatetime noon_utc, Tags = Some [],
      Description = Some '''', SnapshotId = Some ''snap-123''\<rparr>"

definition anonymous_snapshot :: ebs_snapshot where
  "anonymous_snapshot =
     \<lparr>StartTime = PyDatetime noon_utc, Tags = None, Description = None, SnapshotId = None\<rparr>"

text \<open>Database snapshots: with an identifier, with an empty one, with none.\<close>

definition db_named :: db_snapshot where
  "db_named =
     \<lparr>SnapshotCreateTime = PyDatetime noon_utc,
      TagList = Some [\<lparr>Key = Some ''Name'', Value = Some ''tagged''\<rparr>],
      DBSnapshotIdentifier = Some ''rds:prod-2024-01-15''\<rparr>"

definition db_blank :: db_snapshot where
  "db_blank =
     \<lparr>SnapshotCreateTime = PyDatetime noon_utc, TagList = None,
      DBSnapshotIdentifier = Some ''''\<rparr>"

definition cluster_named :: db_cluster_snapshot where
  "cluster_named =
     \<lparr>SnapshotCreateTime = PyDatetime noon_utc,
      TagList = Some [\<lparr>Key = Some ''Name'', Value = Some ''tagged''\<rparr>],
      DBClusterSnapshotIdentifier = Some ''aurora-2024-01-15''\<rparr>"

definition cluster_anonymous :: db_cluster_snapshot where
  "cluster_anonymous =
     \<lparr>SnapshotCreateTime = PyDatetime noon_utc, TagList = None,
      DBClusterSnapshotIdentifier = None\<rparr>"

text \<open>A cutoff, a value one microsecond after it, and values at the edges of the calendar.\<close>

definition feb_first :: datetime where
  "feb_first = \<lparr>year = 2024, month = 2, day = 1, hour = 0, minute = 0, second = 0,
                 microsecond = 0, utcoffset = 0\<rparr>"

definition just_after :: datetime where
  "just_after = \<lparr>year = 2024, month = 2, day = 1, hour = 0, minute = 0, second = 0,
                  microsecond = 1, utcoffset = 0\<rparr>"

text \<open>The cutoff instant, written in a zone three hours east of UTC.\<close>

definition feb_first_east :: datetime where
  "feb_first_east = \<lparr>year = 2024, month = 2, day = 1, hour = 3, minute = 0, second = 0,
                      microsecond = 0, utcoffset = 10800000000\<rparr>"


text \<open>Midnight of 0001-01-01 one hour east of UTC: its UTC time is before year 1.\<close>

definition before_year_1 :: datetime where
  "before_year_1 = \<lparr>year = 1, month = 1, day = 1, hour = 0, minute = 0, second = 0,
                     microsecond = 0, utcoffset = 3600000000\<rparr>"


definition recent_snapshot :: ebs_snapshot where
  "recent_snapshot =
     \<lparr>StartTime = PyDatetime just_after, Tags = None, Description = None,
      SnapshotId = Some ''snap-new''\<rparr>"

definition boundary_snapshot :: ebs_snapshot where
  "boundary_snapshot =
     \<lparr>StartTime = PyDatetime feb_first_east, Tags = None, Description = None,
      SnapshotId = Some ''snap-edge''\<rparr>"

definition unrepresentable_snapshot :: ebs_snapshot where
  "unrepresentable_snapshot =
     \<lparr>StartTime = PyDatetime before_year_1, Tags = None, Description = None,
      SnapshotId = Some ''snap-0''\<rparr>"




text \<open>Two rows, the later one first, and the creation time each was made from.\<close>

definition two_rows :: "snapshot_record list" where
  "two_rows = [\<lparr>name = ''late'', created = ''2024-02-01T00:00:00Z''\<rparr>,
               \<lparr>name = ''early'', created = ''2024-01-15T12:00:00Z''\<rparr>]"


text \<open>The clock thirty days after the cutoff \<open>feb_first\<close> (2024 is a leap year).\<close>

definition mar_second :: datetime where
  "mar_second = \<lparr>year = 2024, month = 3, day = 2, hour = 0, minute = 0, second = 0,
                  microsecond = 0, utcoffset = 0\<rparr>"

text \<open>An item with no creation time, and one whose creation time is a string.\<close>

definition timeless_snapshot :: ebs_snapshot where
  "timeless_snapshot =
     \<lparr>StartTime = PyNone, Tags = None, Description = None, SnapshotId = Some ''snap-none''\<rparr>"

definition string_time_snapshot :: ebs_snapshot where
  "string_time_snapshot =
     \<lparr>StartTime = PyStr ''2024-01-15T12:00:00Z'', Tags = None, Description = None,
      SnapshotId = Some ''snap-str''\<rparr>"

text \<open>Database snapshots created at the cutoff instant, and ones with no creation time.\<close>

definition db_boundary :: db_snapshot where
  "db_boundary =
     \<lparr>SnapshotCreateTime = PyDatetime feb_first_east, TagList = None,
      DBSnapshotIdentifier = Some ''rds:edge''\<rparr>"

definition cluster_boundary :: db_cluster_snapshot where
  "cluster_boundary =
     \<lparr>SnapshotCreateTime = PyDatetime feb_first_east, TagList = None,
      DBClusterSnapshotIdentifier = Some ''aurora-edge''\<rparr>"

definition db_timeless :: db_snapshot where
  "db_timeless =
     \<lparr>SnapshotCreateTime = PyNone, TagList = None, DBSnapshotIdentifier = Some ''rds:none''\<rparr>"

definition cluster_timeless :: db_cluster_snapshot where
  "cluster_timeless =
     \<lparr>SnapshotCreateTime = PyInt 1706745600, TagList = None,
      DBClusterSnapshotIdentifier = Some ''aurora-none''\<rparr>"


text \<open>
  An account with three enabled regions, listed with a duplicate, a region that is not
  opted in and an entry without a name. Listing block-storage snapshots fails on the
  second page in \<^verbatim>\<open>us-east-1\<close> and at once in \<^verbatim>\<open>eu-south-1\<close>; the database services
  answer only in \<^verbatim>\<open>sa-east-1\<close>.
\<close>

definition region_listing :: regions_response where
  "region_listing =
     \<lparr>Regions = Some
        [\<lparr>RegionName = Some ''us-east-1'', OptInStatus = Some ''opt-in-not-required''\<rparr>,
         \<lparr>RegionName = Some ''sa-east-1'', OptInStatus = None\<rparr>,
         \<lparr>RegionName = Some ''ap-east-1'', OptInStatus = Some ''not-opted-in''\<rparr>,
         \<lparr>RegionName = Some ''eu-south-1'', OptInStatus = Some ''opted-in''\<rparr>,
         \<lparr>RegionName = Some ''sa-east-1'', OptInStatus = Some ''opt-in-not-required''\<rparr>,
         \<lparr>RegionName = None, OptInStatus = None\<rparr>]\<rparr>"

definition inventory :: aws where
  "inventory =
     \<lparr>session_error = None,
      region_name = Some ''sa-east-1'',
      client_error = (\<lambda>svc reg. None),
      describe_regions = Inr region_listing,
      describe_snapshots =
        (\<lambda>reg. if reg = ''sa-east-1''
               then [Inr \<lparr>Snapshots = Some [boundary_snapshot, recent_snapshot]\<rparr>,
                     Inr \<lparr>Snapshots = Some [tagged_snapshot]\<rparr>]
               else if reg = ''us-east-1''
               then [Inr \<lparr>Snapshots = Some [described_snapshot]\<rparr>,
                     Inl (ClientError ''RequestLimitExceeded'')]
               else [Inl (ClientError ''AuthFailure'')]),
      describe_db_snapshots =
        (\<lambda>reg. if reg = ''sa-east-1'' then [Inr \<lparr>DBSnapshots = Some [db_named]\<rparr>]
               else [Inl (BotoCoreError ''Connect timeout'')]),
      describe_db_cluster_snapshots =
        (\<lambda>reg. if reg = ''sa-east-1''
               then [Inr \<lparr>DBClusterSnapshots = Some [cluster_boundary]\<rparr>]
               else [Inl (BotoCoreError ''Connect timeout'')])\<rparr>"

definition march_host :: host where
  "march_host = \<lparr>now_utc = mar_second, write_error = None\<rparr>"

definition default_args :: args where
  "default_args =
     \<lparr>profile = None, region = None, all_regions = False, service = ''both'', days = 30,
      output = ''snapshots.txt''\<rparr>"


section \<open>Properties\<close>

subsection \<open>Name resolution\<close>

lemma py_str_or_placeholder:
  "py_str (py_or a (Some ''<unnamed>'')) \<noteq> []"
  by (cases a) (auto simp: py_or_def truthy_def py_str_def)

lemma ebs_item_name:
  "ebs_item c snap = Inr (Some r) \<Longrightarrow> name r = py_str (ebs_display_name snap)"
  by (auto simp: ebs_item_def split: pyval.splits if_splits sum.splits)

lemma list_item_name:
  "list_item snap = Inr (Some p) \<Longrightarrow> fst p = py_str (ebs_display_name snap)"
  by (auto simp: list_item_def split: pyval.splits sum.splits)

lemma db_item_name:
  "db_item c snap = Inr (Some r) \<Longrightarrow> name r = py_str (db_display_name snap)"
  by (auto simp: db_item_def split: pyval.splits if_splits sum.splits)

lemma db_cluster_item_name:
  "db_cluster_item c snap = Inr (Some r) \<Longrightarrow> name r = py_str (db_cluster_display_name snap)"
  by (auto simp: db_cluster_item_def split: pyval.splits if_splits sum.splits)

text \<open>
  C4, as stated, fails: a \<^verbatim>\<open>Name\<close> tag that is present does not win when its value is
  the empty string (the description is used), and a description that is present but empty
  is passed over for the snapshot identifier.
\<close>

theorem C4_counterexample:
  "name_tag (get_list (Tags blank_tag_snapshot)) = Some ''''
   \<and> py_str (ebs_display_name blank_tag_snapshot) = ''nightly backup''
   \<and> name_tag (get_list (Tags bare_snapshot)) = None
   \<and> Description bare_snapshot = Some ''''
   \<and> py_str (ebs_display_name bare_snapshot) = ''snap-123''"
  by (simp add: blank_tag_snapshot_def bare_snapshot_def name_tag_def get_list_def
      ebs_display_name_def py_or_def truthy_def py_str_def)

text \<open>
  C4, amended: the name of a block-storage record, in both scripts, is the first of the
  value of the first \<^verbatim>\<open>Name\<close> tag, the description and the snapshot identifier that is
  present and not the empty string, and the placeholder \<^verbatim>\<open><unnamed>\<close> when none is; it
  is never the empty string.
\<close>

theorem C4_name_precedence:
  "(name_tag (get_list (Tags snap)) = Some v \<longrightarrow> v \<noteq> []
      \<longrightarrow> py_str (ebs_display_name snap) = v)
   \<and> (\<not> truthy (name_tag (get_list (Tags snap))) \<longrightarrow> Description snap = Some v \<longrightarrow> v \<noteq> []
      \<longrightarrow> py_str (ebs_display_name snap) = v)
   \<and> (\<not> truthy (name_tag (get_list (Tags snap))) \<longrightarrow> \<not> truthy (Description snap)
      \<longrightarrow> SnapshotId snap = Some v \<longrightarrow> v \<noteq> []
      \<longrightarrow> py_str (ebs_display_name snap) = v)
   \<and> (\<not> truthy (name_tag (get_list (Tags snap))) \<longrightarrow> \<not> truthy (Description snap)
      \<longrightarrow> \<not> truthy (SnapshotId snap)
      \<longrightarrow> py_str (ebs_display_name snap) = ''<unnamed>'')
   \<and> py_str (ebs_display_name snap) \<noteq> []
   \<and> (ebs_item c snap = Inr (Some r) \<longrightarrow> name r = py_str (ebs_display_name snap))
   \<and> (list_item snap = Inr (Some p) \<longrightarrow> fst p = py_str (ebs_display_name snap))"
proof -
  have "py_str (ebs_display_name snap) \<noteq> []"
    unfolding ebs_display_name_def by (rule py_str_or_placeholder)
  moreover have "ebs_item c snap = Inr (Some r) \<longrightarrow> name r = py_str (ebs_display_name snap)"
    using ebs_item_name by blast
  moreover have "list_item snap = Inr (Some p) \<longrightarrow> fst p = py_str (ebs_display_name snap)"
    using list_item_name by blast
  ultimately show ?thesis
    by (simp add: ebs_display_name_def py_or_def truthy_def py_str_def)
qed

theorem C4_name_precedence_witness:
  "py_str (ebs_display_name tagged_snapshot) = ''backup-a''
   \<and> py_str (ebs_display_name described_snapshot) = ''nightly backup''
   \<and> py_str (ebs_display_name bare_snapshot) = ''snap-123''
   \<and> py_str (ebs_display_name anonymous_snapshot) = ''<unnamed>''"
proof -
  have "py_str (ebs_display_name tagged_snapshot) = ''backup-a''"
    using C4_name_precedence[of tagged_snapshot "''backup-a''"]
    by (simp add: tagged_snapshot_def name_tag_def get_list_def)
  moreover have "py_str (ebs_display_name described_snapshot) = ''nightly backup''"
    using C4_name_precedence[of described_snapshot "''nightly backup''"]
    by (simp add: described_snapshot_def name_tag_def get_list_def truthy_def)
  moreover have "py_str (ebs_display_name bare_snapshot) = ''snap-123''"
    using C4_name_precedence[of bare_snapshot "''snap-123''"]
    by (simp add: bare_snapshot_def name_tag_def get_list_def truthy_def)
  moreover have "py_str (ebs_display_name anonymous_snapshot) = ''<unnamed>''"
    using C4_name_precedence[of anonymous_snapshot]
    by (simp add: anonymous_snapshot_def name_tag_def get_list_def truthy_def)
  ultimately show ?thesis by simp
qed

text \<open>
  C7, as stated, fails: a database snapshot identifier that is present but is the empty
  string is not used; the placeholder is.
\<close>

theorem C7_counterexample:
  "DBSnapshotIdentifier db_blank = Some ''''
   \<and> py_str (db_display_name db_blank) = ''<unnamed>''"
  by (simp add: db_blank_def db_display_name_def py_or_def truthy_def py_str_def)

text \<open>
  C7, amended: the name of a database instance record and of a database cluster record is
  the snapshot identifier when it is present and not the empty string, and the
  placeholder \<^verbatim>\<open><unnamed>\<close> otherwise; the tag list of the snapshot plays no part.
\<close>

theorem C7_identifier_only:
  "(DBSnapshotIdentifier snap = Some v \<longrightarrow> v \<noteq> [] \<longrightarrow> py_str (db_display_name snap) = v)
   \<and> (\<not> truthy (DBSnapshotIdentifier snap) \<longrightarrow> py_str (db_display_name snap) = ''<unnamed>'')
   \<and> (DBClusterSnapshotIdentifier cl = Some w \<longrightarrow> w \<noteq> []
        \<longrightarrow> py_str (db_cluster_display_name cl) = w)
   \<and> (\<not> truthy (DBClusterSnapshotIdentifier cl)
        \<longrightarrow> py_str (db_cluster_display_name cl) = ''<unnamed>'')
   \<and> db_display_name (snap\<lparr>TagList := ts\<rparr>) = db_display_name snap
   \<and> db_cluster_display_name (cl\<lparr>TagList := ts\<rparr>) = db_cluster_display_name cl
   \<and> (db_item c snap = Inr (Some r) \<longrightarrow> name r = py_str (db_display_name snap))
   \<and> (db_cluster_item c cl = Inr (Some r') \<longrightarrow> name r' = py_str (db_cluster_display_name cl))"
proof -
  have "db_item c snap = Inr (Some r) \<longrightarrow> name r = py_str (db_display_name snap)"
    using db_item_name by blast
  moreover have
    "db_cluster_item c cl = Inr (Some r') \<longrightarrow> name r' = py_str (db_cluster_display_name cl)"
    using db_cluster_item_name by blast
  ultimately show ?thesis
    by (simp add: db_display_name_def db_cluster_display_name_def py_or_def truthy_def py_str_def)
qed

theorem C7_identifier_only_witness:
  "py_str (db_display_name db_named) = ''rds:prod-2024-01-15''
   \<and> py_str (db_display_name db_blank) = ''<unnamed>''
   \<and> py_str (db_cluster_display_name cluster_named) = ''aurora-2024-01-15''
   \<and> py_str (db_cluster_display_name cluster_anonymous) = ''<unnamed>''"
proof -
  have "py_str (db_display_name db_named) = ''rds:prod-2024-01-15''"
    using C7_identifier_only[of db_named "''rds:prod-2024-01-15''"]
    by (simp add: db_named_def)
  moreover have "py_str (db_display_name db_blank) = ''<unnamed>''"
    using C7_identifier_only[of db_blank]
    by (simp add: db_blank_def truthy_def)
  moreover have "py_str (db_cluster_display_name cluster_named) = ''aurora-2024-01-15''"
    using C7_identifier_only[of _ _ cluster_named "''aurora-2024-01-15''"]
    by (simp add: cluster_named_def)
  moreover have "py_str (db_cluster_display_name cluster_anonymous) = ''<unnamed>''"
    using C7_identifier_only[of _ _ cluster_anonymous]
    by (simp add: cluster_anonymous_def truthy_def)
  ultimately show ?thesis by simp
qed

subsection \<open>The calendar\<close>

lemma month_day_common:
  "\<forall>n\<in>{0..364}. (case month_day False n of (m, d) \<Rightarrow>
      1 \<le> m \<and> m \<le> 12 \<and> 1 \<le> d \<and> d \<le> DAYS_IN_MONTH ! nat m
      \<and> DAYS_BEFORE_MONTH ! nat m + d = n + 1)"
  by code_simp

lemma month_day_leap:
  "\<forall>n\<in>{0..364}. (case month_day True n of (m, d) \<Rightarrow>
      1 \<le> m \<and> m \<le> 12 \<and> 1 \<le> d \<and> d \<le> (if m = 2 then 29 else DAYS_IN_MONTH ! nat m)
      \<and> DAYS_BEFORE_MONTH ! nat m + (if m > 2 then 1 else 0) + d = n + 1)"
  by code_simp

lemma month_day_valid:
  assumes "0 \<le> n" "n \<le> 364" "month_day (is_leap y) n = (m, d)"
  shows "1 \<le> m \<and> m \<le> 12 \<and> 1 \<le> d \<and> d \<le> days_in_month y m
         \<and> days_before_month y m + d = n + 1"
proof (cases "is_leap y")
  case True
  from assms(1,2) have "n \<in> {0..364}" by simp
  from bspec[OF month_day_leap this] True assms(3) show ?thesis
    by (simp add: days_in_month_def days_before_month_def)
next
  case False
  from assms(1,2) have "n \<in> {0..364}" by simp
  from bspec[OF month_day_common this] False assms(3) show ?thesis
    by (simp add: days_in_month_def days_before_month_def)
qed

text \<open>The days before a year and its leap status, from the year's place in the cycles.\<close>

lemma days_before_year_cycles:
  assumes "0 \<le> b" "b \<le> 3" "0 \<le> c" "c \<le> 24" "0 \<le> e" "e \<le> 3"
  shows "days_before_year (400 * a + 100 * b + 4 * c + e + 1)
         = 146097 * a + 36524 * b + 1461 * c + 365 * e"
proof -
  let ?p = "400 * a + 100 * b + 4 * c + e"
  have d4: "?p div 4 = 100 * a + 25 * b + c"
    by (rule int_div_pos_eq[where r = e]) (use assms in auto)
  have d100: "?p div 100 = 4 * a + b"
    by (rule int_div_pos_eq[where r = "4 * c + e"]) (use assms in auto)
  have d400: "?p div 400 = a"
    by (rule int_div_pos_eq[where r = "100 * b + 4 * c + e"]) (use assms in auto)
  show ?thesis
    unfolding days_before_year_def Let_def using d4 d100 d400 by simp
qed

lemma is_leap_cycles:
  assumes "0 \<le> b" "b \<le> 3" "0 \<le> c" "c \<le> 24" "0 \<le> e" "e \<le> 3"
  shows "is_leap (400 * a + 100 * b + 4 * c + e + 1) = (e = 3 \<and> (c \<noteq> 24 \<or> b = 3))"
proof -
  let ?y = "400 * a + 100 * b + 4 * c + e + 1"
  show ?thesis
  proof (cases "e = 3")
    case False
    have m4: "?y mod 4 = e + 1"
      by (rule int_mod_pos_eq[where q = "100 * a + 25 * b + c"]) (use assms False in auto)
    show ?thesis unfolding is_leap_def m4 using assms False by auto
  next
    case e3: True
    have "?y = 4 * (100 * a + 25 * b + c + 1)" using e3 by simp
    then have m4: "?y mod 4 = 0" by (simp only: mod_mult_self1_is_0)
    show ?thesis
    proof (cases "c = 24")
      case False
      have m100: "?y mod 100 = 4 * c + 4"
        by (rule int_mod_pos_eq[where q = "4 * a + b"]) (use assms False e3 in auto)
      show ?thesis unfolding is_leap_def m4 m100 using assms False e3 by auto
    next
      case c24: True
      have "?y = 100 * (4 * a + b + 1)" using e3 c24 by simp
      then have m100: "?y mod 100 = 0" by (simp only: mod_mult_self1_is_0)
      show ?thesis
      proof (cases "b = 3")
        case True
        have "?y = 400 * (a + 1)" using e3 c24 True by simp
        then have m400: "?y mod 400 = 0" by (simp only: mod_mult_self1_is_0)
        show ?thesis unfolding is_leap_def m4 m100 m400 using e3 c24 True by simp
      next
        case False
        have m400: "?y mod 400 = 100 * b + 100"
          by (rule int_mod_pos_eq[where q = a]) (use assms False e3 c24 in auto)
        show ?thesis unfolding is_leap_def m4 m100 m400 using assms e3 c24 False by auto
      qed
    qed
  qed
qed

text \<open>
  \<open>ord2ymd\<close> returns a date of the calendar, and \<open>ymd2ord\<close> takes it back to the
  ordinal.
\<close>

lemma ord2ymd_valid:
  assumes n1: "1 \<le> n" and res: "ord2ymd n = (y, m, d)"
  shows "1 \<le> y \<and> 1 \<le> m \<and> m \<le> 12 \<and> 1 \<le> d \<and> d \<le> days_in_month y m
         \<and> ymd2ord y m d = n"
proof -
  define N where "N = n - 1"
  define a where "a = N div 146097"
  define r400 where "r400 = N mod 146097"
  define b where "b = r400 div 36524"
  define r100 where "r100 = r400 mod 36524"
  define c where "c = r100 div 1461"
  define r4 where "r4 = r100 mod 1461"
  define e where "e = r4 div 365"
  define r1 where "r1 = r4 mod 365"
  have N0: "0 \<le> N" using n1 by (simp add: N_def)
  have a0: "0 \<le> a" using N0 by (simp add: a_def pos_imp_zdiv_nonneg_iff)
  have Neq: "N = 146097 * a + r400" by (simp add: a_def r400_def)
  have r400b: "0 \<le> r400" "r400 < 146097" by (simp_all add: r400_def)
  have r400eq: "r400 = 36524 * b + r100" by (simp add: b_def r100_def)
  have r100b: "0 \<le> r100" "r100 < 36524" by (simp_all add: r100_def)
  have r100eq: "r100 = 1461 * c + r4" by (simp add: c_def r4_def)
  have r4b: "0 \<le> r4" "r4 < 1461" by (simp_all add: r4_def)
  have r4eq: "r4 = 365 * e + r1" by (simp add: e_def r1_def)
  have r1b: "0 \<le> r1" "r1 < 365" by (simp_all add: r1_def)
  have b0: "0 \<le> b" using r400b by (simp add: b_def pos_imp_zdiv_nonneg_iff)
  have c0: "0 \<le> c" using r100b by (simp add: c_def pos_imp_zdiv_nonneg_iff)
  have e0: "0 \<le> e" using r4b by (simp add: e_def pos_imp_zdiv_nonneg_iff)
  have b4: "b \<le> 4" using r400b r400eq r100b by linarith
  have c24: "c \<le> 24" using r100b r100eq r4b by linarith
  have e4: "e \<le> 4" using r4b r4eq r1b by linarith
  have unfolded: "(y, m, d) =
      (if e = 4 \<or> b = 4 then (a * 400 + 1 + b * 100 + c * 4 + e - 1, 12, 31)
       else (a * 400 + 1 + b * 100 + c * 4 + e,
             fst (month_day (e = 3 \<and> (c \<noteq> 24 \<or> b = 3)) r1),
             snd (month_day (e = 3 \<and> (c \<noteq> 24 \<or> b = 3)) r1)))"
    using res
    unfolding ord2ymd_def Let_def N_def a_def r400_def b_def r100_def c_def r4_def e_def r1_def
    by simp
  show ?thesis
  proof (cases "b = 4")
    case True
    then have "r400 = 146096" "r100 = 0" using r400b r400eq r100b by linarith+
    then have ce: "c = 0" "e = 0" "r1 = 0" by (simp_all add: c_def e_def r4_def r1_def)
    have yv: "y = 400 * a + 100 * 3 + 4 * 24 + 3 + 1" "m = 12" "d = 31"
      using unfolded True ce by simp_all
    have "days_before_year y = 146097 * a + 36524 * 3 + 1461 * 24 + 365 * 3"
      unfolding yv by (rule days_before_year_cycles) simp_all
    moreover have "is_leap y"
      unfolding yv by (subst is_leap_cycles) simp_all
    moreover have "n = 146097 * a + 146097" using Neq \<open>r400 = 146096\<close> by (simp add: N_def)
    ultimately show ?thesis using yv a0
      by (simp add: ymd2ord_def days_before_month_def days_in_month_def
          DAYS_BEFORE_MONTH_def DAYS_IN_MONTH_def)
  next
    case bn4: False
    then have b3: "b \<le> 3" using b4 by simp
    show ?thesis
    proof (cases "e = 4")
      case True
      then have "r4 = 1460" "r1 = 0" using r4b r4eq r1b by linarith+
      then have c23: "c \<le> 23" using r100eq r100b by linarith
      have yv: "y = 400 * a + 100 * b + 4 * c + 3 + 1" "m = 12" "d = 31"
        using unfolded True by simp_all
      have "days_before_year y = 146097 * a + 36524 * b + 1461 * c + 365 * 3"
        unfolding yv by (rule days_before_year_cycles) (use b0 b3 c0 c23 in simp_all)
      moreover have "is_leap y"
        unfolding yv by (subst is_leap_cycles) (use b0 b3 c0 c23 in simp_all)
      moreover have "n = 146097 * a + 36524 * b + 1461 * c + 1461"
        using Neq r400eq r100eq \<open>r4 = 1460\<close> by (simp add: N_def)
      ultimately show ?thesis using yv a0 b0 c0
        by (simp add: ymd2ord_def days_before_month_def days_in_month_def
            DAYS_BEFORE_MONTH_def DAYS_IN_MONTH_def)
    next
      case en4: False
      then have e3: "e \<le> 3" using e4 by simp
      define md where "md = month_day (e = 3 \<and> (c \<noteq> 24 \<or> b = 3)) r1"
      have yv: "y = 400 * a + 100 * b + 4 * c + e + 1" "m = fst md" "d = snd md"
        using unfolded bn4 en4 by (auto simp: md_def) (metis fst_conv snd_conv)+
      have dby: "days_before_year y = 146097 * a + 36524 * b + 1461 * c + 365 * e"
        unfolding yv by (rule days_before_year_cycles) (use b0 b3 c0 c24 e0 e3 in simp_all)
      have leap: "is_leap y = (e = 3 \<and> (c \<noteq> 24 \<or> b = 3))"
        unfolding yv by (rule is_leap_cycles) (use b0 b3 c0 c24 e0 e3 in simp_all)
      have "month_day (is_leap y) r1 = (m, d)"
        using yv(2,3) by (simp add: md_def leap)
      from month_day_valid[OF _ _ this] r1b
      have md_ok: "1 \<le> m \<and> m \<le> 12 \<and> 1 \<le> d \<and> d \<le> days_in_month y m
                   \<and> days_before_month y m + d = r1 + 1"
        by simp
      have "n = 146097 * a + 36524 * b + 1461 * c + 365 * e + r1 + 1"
        using Neq r400eq r100eq r4eq by (simp add: N_def)
      moreover have "1 \<le> y" using yv(1) a0 b0 c0 e0 by simp
      ultimately show ?thesis using md_ok dby by (simp add: ymd2ord_def)
    qed
  qed
qed

lemma div_step:
  assumes "0 < k"
  shows "(y::int) div k - (y - 1) div k = (if y mod k = 0 then 1 else 0)"
proof (cases "y mod k = 0")
  case True
  have "(y - 1) div k = y div k - 1"
  proof (rule int_div_pos_eq[where r = "k - 1"])
    have "y = k * (y div k)" using True by auto
    then show "y - 1 = k * (y div k - 1) + (k - 1)" by (simp add: algebra_simps)
  qed (use assms in auto)
  with True show ?thesis by simp
next
  case False
  have "(y - 1) div k = y div k"
  proof (rule int_div_pos_eq[where r = "y mod k - 1"])
    show "y - 1 = k * (y div k) + (y mod k - 1)" by simp
    have "0 \<le> y mod k" using assms by simp
    with False show "0 \<le> y mod k - 1" by linarith
    show "y mod k - 1 < k" using pos_mod_bound[OF assms, of y] by linarith
  qed
  with False show ?thesis by simp
qed

lemma days_before_year_step:
  "days_before_year (y + 1) = days_before_year y + (if is_leap y then 366 else 365)"
proof -
  define A where "A = (y - 1) div 4"
  define B where "B = (y - 1) div 100"
  define C where "C = (y - 1) div 400"
  define p where "p = (y mod 4 = 0)"
  define q where "q = (y mod 100 = 0)"
  define r where "r = (y mod 400 = 0)"
  have s4: "y div 4 = A + (if p then 1 else 0)"
    using div_step[of 4 y] by (simp add: A_def p_def)
  have s100: "y div 100 = B + (if q then 1 else 0)"
    using div_step[of 100 y] by (simp add: B_def q_def)
  have s400: "y div 400 = C + (if r then 1 else 0)"
    using div_step[of 400 y] by (simp add: C_def r_def)
  have d1: "p" if "q"
  proof -
    have "(4::int) dvd 100" by simp
    moreover have "100 dvd y" using that by (simp add: q_def mod_eq_0_iff_dvd)
    ultimately have "4 dvd y" by (rule dvd_trans)
    then show ?thesis by (simp add: p_def mod_eq_0_iff_dvd)
  qed
  have d2: "q" if "r"
  proof -
    have "(100::int) dvd 400" by simp
    moreover have "400 dvd y" using that by (simp add: r_def mod_eq_0_iff_dvd)
    ultimately have "100 dvd y" by (rule dvd_trans)
    then show ?thesis by (simp add: q_def mod_eq_0_iff_dvd)
  qed
  have lhs: "days_before_year (y + 1)
      = y * 365 + (A + (if p then 1 else 0)) - (B + (if q then 1 else 0))
          + (C + (if r then 1 else 0))"
    by (simp add: days_before_year_def Let_def s4 s100 s400)
  have rhs: "days_before_year y = (y - 1) * 365 + A - B + C"
    by (simp add: days_before_year_def Let_def A_def B_def C_def)
  have leap: "is_leap y = (p \<and> (\<not> q \<or> r))"
    by (simp add: is_leap_def p_def q_def r_def)
  show ?thesis unfolding lhs rhs leap using d1 d2 by (cases p; cases q; cases r; simp)
qed

lemma days_before_year_next:
  assumes "y < y'"
  shows "days_before_year y + (if is_leap y then 366 else 365) \<le> days_before_year y'"
proof -
  have "y + 1 \<le> y'" using assms by simp
  then show ?thesis
  proof (induction y' rule: int_ge_induct)
    case base
    then show ?case by (simp add: days_before_year_step)
  next
    case (step i)
    have "days_before_year i \<le> days_before_year (i + 1)" by (simp add: days_before_year_step)
    with step show ?case by linarith
  qed
qed

lemma days_before_year_mono:
  assumes "y \<le> y'"
  shows "days_before_year y \<le> days_before_year y'"
proof (cases "y = y'")
  case False
  with assms have "y < y'" by simp
  from days_before_year_next[OF this] show ?thesis by (simp split: if_splits)
qed simp


lemma month_table_bounds:
  "\<forall>m\<in>{1..12}. 28 \<le> DAYS_IN_MONTH ! nat m \<and> DAYS_IN_MONTH ! nat m \<le> 31
      \<and> 0 \<le> DAYS_BEFORE_MONTH ! nat m
      \<and> DAYS_BEFORE_MONTH ! nat m + DAYS_IN_MONTH ! nat m \<le> 365"
  by code_simp

lemma month_table_leap:
  "\<forall>m\<in>{1..12}. DAYS_BEFORE_MONTH ! nat m + (if m > 2 then 1 else 0)
      + (if m = 2 then 29 else DAYS_IN_MONTH ! nat m) \<le> 366"
  by code_simp

lemma days_in_month_bounds:
  assumes "1 \<le> m" "m \<le> 12"
  shows "28 \<le> days_in_month y m" and "days_in_month y m \<le> 31"
proof -
  have "m \<in> {1..12}" using assms by simp
  from bspec[OF month_table_bounds this]
  show "28 \<le> days_in_month y m" and "days_in_month y m \<le> 31"
    by (simp_all add: days_in_month_def)
qed



lemma days_before_month_end:
  assumes "1 \<le> m" "m \<le> 12"
  shows "0 \<le> days_before_month y m"
    and "days_before_month y m + days_in_month y m \<le> (if is_leap y then 366 else 365)"
proof -
  have m: "m \<in> {1..12}" using assms by simp
  from bspec[OF month_table_bounds m] show "0 \<le> days_before_month y m"
    by (simp add: days_before_month_def)
  show "days_before_month y m + days_in_month y m \<le> (if is_leap y then 366 else 365)"
  proof (cases "is_leap y")
    case True
    with bspec[OF month_table_leap m] show ?thesis
      by (simp add: days_before_month_def days_in_month_def)
  next
    case False
    with bspec[OF month_table_bounds m] show ?thesis
      by (simp add: days_before_month_def days_in_month_def)
  qed
qed





lemma ord2ymd_year_le:
  assumes n1: "1 \<le> n" and nmax: "n \<le> MAXORDINAL" and res: "ord2ymd n = (y, m, d)"
  shows "y \<le> 9999"
proof (rule ccontr)
  assume "\<not> y \<le> 9999"
  then have "10000 \<le> y" by simp
  have "days_before_year 10000 = 3652059" by (simp add: days_before_year_def)
  with days_before_year_mono[OF \<open>10000 \<le> y\<close>] have "3652059 \<le> days_before_year y"
    by (simp only:)
  moreover from ord2ymd_valid[OF n1 res]
  have m: "1 \<le> m" "m \<le> 12" "1 \<le> d" "ymd2ord y m d = n" by simp_all
  moreover have "0 \<le> days_before_month y m" using days_before_month_end(1) m by simp
  ultimately show False using nmax by (simp add: ymd2ord_def MAXORDINAL_def)
qed
subsection \<open>Decimal digits\<close>

lemma digit_char_code: "\<forall>n\<in>{0..<10}. of_char (digit_char n) = 48 + n"
  by code_simp

lemma of_char_digit_char: "n < 10 \<Longrightarrow> of_char (digit_char n) = 48 + n"
  using digit_char_code by simp



lemma digit_char_table: "\<forall>n\<in>{0..<10}. digit_char n \<in> set ''0123456789''"
  by code_simp

lemma digit_char_in: "n < 10 \<Longrightarrow> digit_char n \<in> set ''0123456789''"
  using digit_char_table by simp

lemma dec_small: "n < 10 \<Longrightarrow> dec n = [digit_char n]"
  by (simp add: dec.simps)

lemma dec_large: "10 \<le> n \<Longrightarrow> dec n = dec (n div 10) @ [digit_char (n mod 10)]"
  by (subst dec.simps) simp

lemma dec_digits: "set (dec n) \<subseteq> set ''0123456789''"
proof (induction n rule: dec.induct)
  case (1 n)
  show ?case
  proof (cases "n < 10")
    case True
    then show ?thesis using digit_char_in[of n] by (simp add: dec_small)
  next
    case False
    then have "set (dec (n div 10)) \<subseteq> set ''0123456789''" using 1 by simp
    moreover have "digit_char (n mod 10) \<in> set ''0123456789''" by (rule digit_char_in) simp
    ultimately show ?thesis using False by (simp add: dec_large)
  qed
qed

lemma dec_two: "10 \<le> n \<Longrightarrow> n < 100 \<Longrightarrow> dec n = [digit_char (n div 10), digit_char (n mod 10)]"
  by (simp add: dec_large dec_small)

lemma dec_four:
  assumes "1000 \<le> n" "n < 10000"
  shows "dec n = [digit_char (n div 1000), digit_char (n div 100 mod 10),
                  digit_char (n div 10 mod 10), digit_char (n mod 10)]"
proof -
  have b: "n div 10 div 10 = n div 100" "n div 100 div 10 = n div 1000"
    by (simp_all add: div_mult2_eq[symmetric])
  have "dec n = dec (n div 10) @ [digit_char (n mod 10)]"
    using assms by (intro dec_large) simp
  moreover have "dec (n div 10) = dec (n div 100) @ [digit_char (n div 10 mod 10)]"
    using dec_large[of "n div 10"] assms b by simp
  moreover have "dec (n div 100) = dec (n div 1000) @ [digit_char (n div 100 mod 10)]"
    using dec_large[of "n div 100"] assms b by simp
  moreover have "dec (n div 1000) = [digit_char (n div 1000)]"
    using assms by (intro dec_small) simp
  ultimately show ?thesis by simp
qed

lemma fmt_02d_two:
  assumes "0 \<le> i" "i < 100"
  shows "fmt_02d i = [digit_char (nat i div 10), digit_char (nat i mod 10)]"
proof (cases "nat i < 10")
  case True
  then have "digit_char 0 = CHR ''0''" "nat i div 10 = 0" "nat i mod 10 = nat i"
    by (simp_all add: digit_char_def)
  with True show ?thesis by (simp add: fmt_02d_def zfill_def dec_small)
next
  case False
  with assms have "10 \<le> nat i" "nat i < 100" by simp_all
  then show ?thesis by (simp add: fmt_02d_def zfill_def dec_two)
qed

lemma fmt_Y_four:
  assumes "1000 \<le> y" "y \<le> 9999"
  shows "fmt_Y y = [digit_char (nat y div 1000), digit_char (nat y div 100 mod 10),
                    digit_char (nat y div 10 mod 10), digit_char (nat y mod 10)]"
  unfolding fmt_Y_def by (rule dec_four) (use assms in simp_all)








subsection \<open>Clock fields and microseconds\<close>

lemma clock_split:
  assumes "0 \<le> secs" "secs < 86400"
  shows "0 \<le> secs div 3600" "secs div 3600 < 24"
    and "0 \<le> secs mod 3600 div 60" "secs mod 3600 div 60 < 60"
    and "0 \<le> secs mod 60" "secs mod 60 < 60"
    and "secs div 3600 * 3600 + secs mod 3600 div 60 * 60 + secs mod 60 = (secs::int)"
proof -
  define h r where "h = secs div 3600" and "r = secs mod 3600"
  define mi s where "mi = r div 60" and "s = r mod 60"
  have secs: "secs = 3600 * h + r" and r: "0 \<le> r" "r < 3600"
    by (simp_all add: h_def r_def)
  have req: "r = 60 * mi + s" and s: "0 \<le> s" "s < 60"
    by (simp_all add: mi_def s_def)
  have s60: "secs mod 60 = s"
    unfolding s_def r_def by (simp add: mod_mod_cancel)
  have h: "0 \<le> h" "h < 24" using assms secs r by linarith+
  have mi: "0 \<le> mi" "mi < 60" using r req s by linarith+
  show "0 \<le> secs div 3600" "secs div 3600 < 24" using h by (simp_all add: h_def)
  show "0 \<le> secs mod 3600 div 60" "secs mod 3600 div 60 < 60"
    using mi by (simp_all add: mi_def r_def)
  show "0 \<le> secs mod 60" "secs mod 60 < 60" by simp_all
  have "h * 3600 + mi * 60 + s = secs" using secs req by simp
  then show "secs div 3600 * 3600 + secs mod 3600 div 60 * 60 + secs mod 60 = secs"
    unfolding s60 by (simp add: h_def mi_def r_def)
qed


lemma micros_split:
  fixes t :: int
  shows "0 \<le> t mod US_PER_DAY div 1000000" "t mod US_PER_DAY div 1000000 < 86400"
    and "0 \<le> t mod US_PER_DAY mod 1000000" "t mod US_PER_DAY mod 1000000 < 1000000"
    and "t div 1000000 = t div US_PER_DAY * 86400 + t mod US_PER_DAY div 1000000"
    and "(t div US_PER_DAY * 86400 + t mod US_PER_DAY div 1000000) * 1000000
           + t mod US_PER_DAY mod 1000000 = t"
proof -
  define D r where "D = t div US_PER_DAY" and "r = t mod US_PER_DAY"
  define q us where "q = r div 1000000" and "us = r mod 1000000"
  have t: "t = 86400000000 * D + r" and r: "0 \<le> r" "r < 86400000000"
    by (simp_all add: D_def r_def US_PER_DAY_def)
  have req: "r = 1000000 * q + us" and us: "0 \<le> us" "us < 1000000"
    by (simp_all add: q_def us_def)
  have q: "0 \<le> q" "q < 86400" using r req us by linarith+
  have teq: "t = 1000000 * (D * 86400 + q) + us" using t req by simp
  have tdiv: "t div 1000000 = D * 86400 + q"
    by (rule int_div_pos_eq[OF teq us])
  show "0 \<le> t mod US_PER_DAY div 1000000" "t mod US_PER_DAY div 1000000 < 86400"
    using q by (simp_all add: q_def r_def)
  show "0 \<le> t mod US_PER_DAY mod 1000000" "t mod US_PER_DAY mod 1000000 < 1000000"
    by simp_all
  show "t div 1000000 = t div US_PER_DAY * 86400 + t mod US_PER_DAY div 1000000"
    using tdiv by (simp add: D_def q_def r_def)
  show "(t div US_PER_DAY * 86400 + t mod US_PER_DAY div 1000000) * 1000000
           + t mod US_PER_DAY mod 1000000 = t"
    using teq by (simp add: D_def q_def r_def us_def)
qed

text \<open>The fields of the value built from a microsecond count on a day of the calendar.\<close>

lemma of_micros_date:
  "(year (of_micros t off), month (of_micros t off), day (of_micros t off))
     = ord2ymd (t div US_PER_DAY)"
  by (simp add: of_micros_def Let_def)

lemma of_micros_clock:
  "hour (of_micros t off) = t mod US_PER_DAY div 1000000 div 3600"
  "minute (of_micros t off) = t mod US_PER_DAY div 1000000 mod 3600 div 60"
  "second (of_micros t off) = t mod US_PER_DAY div 1000000 mod 60"
  "microsecond (of_micros t off) = t mod US_PER_DAY mod 1000000"
  "utcoffset (of_micros t off) = off"
  by (simp_all add: of_micros_def Let_def)

lemma of_micros_in_range:
  assumes "1 \<le> t div US_PER_DAY" "t div US_PER_DAY \<le> MAXORDINAL"
  shows "in_range (of_micros t off)"
proof -
  let ?u = "of_micros t off"
  obtain y m d where ymd: "ord2ymd (t div US_PER_DAY) = (y, m, d)"
    by (cases "ord2ymd (t div US_PER_DAY)") auto
  with of_micros_date[of t off]
  have f: "year ?u = y" "month ?u = m" "day ?u = d"
    by simp_all
  from ord2ymd_valid[OF assms(1) ymd] have "valid_date y m d" by (simp add: valid_date_def)
  then have 1: "valid_date (year ?u) (month ?u) (day ?u)" by (simp only: f)
  from ord2ymd_year_le[OF assms ymd] have 2: "year ?u \<le> 9999" by (simp only: f)
  note c = clock_split(1-6)[OF micros_split(1,2)[of t]]
  have 3: "0 \<le> hour ?u" "hour ?u < 24" unfolding of_micros_clock by (rule c)+
  have 4: "0 \<le> minute ?u" "minute ?u < 60" unfolding of_micros_clock by (rule c)+
  have 5: "0 \<le> second ?u" "second ?u < 60" unfolding of_micros_clock by (rule c)+
  have 6: "0 \<le> microsecond ?u" "microsecond ?u < 1000000"
    unfolding of_micros_clock by (rule micros_split)+
  show ?thesis unfolding in_range_def using 1 2 3 4 5 6 by blast
qed

lemma local_micros_of_micros:
  assumes "1 \<le> t div US_PER_DAY"
  shows "local_micros (of_micros t off) = t"
proof -
  obtain y m d where ymd: "ord2ymd (t div US_PER_DAY) = (y, m, d)"
    by (cases "ord2ymd (t div US_PER_DAY)") auto
  with of_micros_date[of t off]
  have f: "year (of_micros t off) = y" "month (of_micros t off) = m" "day (of_micros t off) = d"
    by simp_all
  from ord2ymd_valid[OF assms ymd] have ord: "ymd2ord y m d = t div US_PER_DAY" by simp
  define D q us where "D = t div US_PER_DAY" and "q = t mod US_PER_DAY div 1000000"
    and "us = t mod US_PER_DAY mod 1000000"
  define h mi s where "h = q div 3600" and "mi = q mod 3600 div 60" and "s = q mod 60"
  have clock: "h * 3600 + mi * 60 + s = q"
    unfolding q_def h_def mi_def s_def by (rule clock_split(7)[OF micros_split(1,2)])
  have whole: "(D * 86400 + q) * 1000000 + us = t"
    unfolding D_def q_def us_def by (rule micros_split(6))
  have "local_micros (of_micros t off) = (D * 86400 + h * 3600 + mi * 60 + s) * 1000000 + us"
    unfolding local_micros_def f of_micros_clock ord
    unfolding D_def[symmetric] q_def[symmetric] us_def[symmetric]
    unfolding h_def[symmetric] mi_def[symmetric] s_def[symmetric] ..
  also have "\<dots> = (D * 86400 + q) * 1000000 + us"
    using clock by simp
  finally show ?thesis using whole by simp
qed

lemma dt_add_Inr:
  assumes "dt_add dt delta = Inr u"
  shows "local_micros u = local_micros dt + delta" "utcoffset u = utcoffset dt" "in_range u"
    and "u = of_micros (local_micros dt + delta) (utcoffset dt)"
    and "1 \<le> (local_micros dt + delta) div US_PER_DAY"
    and "(local_micros dt + delta) div US_PER_DAY \<le> MAXORDINAL"
proof -
  let ?t = "local_micros dt + delta"
  from assms have r: "0 < ?t div US_PER_DAY" "?t div US_PER_DAY \<le> MAXORDINAL"
    and u: "u = of_micros ?t (utcoffset dt)"
    by (auto simp: dt_add_def Let_def split: if_splits)
  from r have r1: "1 \<le> ?t div US_PER_DAY" by simp
  show "local_micros u = ?t" unfolding u by (rule local_micros_of_micros[OF r1])
  show "utcoffset u = utcoffset dt" unfolding u by (simp add: of_micros_clock)
  show "in_range u" unfolding u by (rule of_micros_in_range[OF r1 r(2)])
  show "u = of_micros ?t (utcoffset dt)" by (rule u)
  show "1 \<le> ?t div US_PER_DAY" by (rule r1)
  show "?t div US_PER_DAY \<le> MAXORDINAL" by (rule r(2))
qed

text \<open>The conversion to UTC keeps the instant.\<close>

lemma astimezone_utc_Inr:
  assumes "astimezone_utc dt = Inr u"
  shows "utc_micros u = utc_micros dt" "utcoffset u = 0" "in_range u"
    and "u = of_micros (utc_micros dt) 0"
    and "1 \<le> utc_micros dt div US_PER_DAY"
    and "utc_micros dt div US_PER_DAY \<le> MAXORDINAL"
proof -
  from assms obtain v where v: "dt_add dt (- utcoffset dt) = Inr v" and u: "u = v\<lparr>utcoffset := 0\<rparr>"
    by (auto simp: astimezone_utc_def split: sum.splits)
  note a = dt_add_Inr[OF v]
  have lm: "local_micros u = local_micros v" unfolding u by (simp add: local_micros_def)
  show "utc_micros u = utc_micros dt"
    using a(1) lm by (simp add: utc_micros_def u)
  show "utcoffset u = 0" by (simp add: u)
  show "in_range u" using a(3) by (simp add: in_range_def u)
  show "u = of_micros (utc_micros dt) 0"
    unfolding u a(4) by (simp add: of_micros_def Let_def utc_micros_def)
  show "1 \<le> utc_micros dt div US_PER_DAY" using a(5) by (simp add: utc_micros_def)
  show "utc_micros dt div US_PER_DAY \<le> MAXORDINAL" using a(6) by (simp add: utc_micros_def)
qed
subsection \<open>Chronological and lexical order\<close>





lemma fmt_02d_length: "0 \<le> i \<Longrightarrow> i < 100 \<Longrightarrow> length (fmt_02d i) = 2"
  by (simp add: fmt_02d_two)

lemma fmt_Y_length: "1000 \<le> y \<Longrightarrow> y \<le> 9999 \<Longrightarrow> length (fmt_Y y) = 4"
  by (simp add: fmt_Y_four)

lemma in_range_two_digits:
  assumes "in_range u"
  shows "0 \<le> month u" "month u < 100" "0 \<le> day u" "day u < 100"
    "0 \<le> hour u" "hour u < 100" "0 \<le> minute u" "minute u < 100"
    "0 \<le> second u" "second u < 100" "1 \<le> year u" "year u \<le> 9999"
proof -
  from assms have v: "1 \<le> year u" "1 \<le> month u" "month u \<le> 12" "1 \<le> day u"
    "day u \<le> days_in_month (year u) (month u)"
    by (simp_all add: in_range_def valid_date_def)
  from days_in_month_bounds(2)[OF v(2,3), of "year u"] v(5) have "day u \<le> 31" by simp
  with v assms show "0 \<le> month u" "month u < 100" "0 \<le> day u" "day u < 100"
    "0 \<le> hour u" "hour u < 100" "0 \<le> minute u" "minute u < 100"
    "0 \<le> second u" "second u < 100" "1 \<le> year u" "year u \<le> 9999"
    by (simp_all add: in_range_def)
qed


subsection \<open>The shape of a timestamp\<close>

lemma digit_val_digit_char: "n < 10 \<Longrightarrow> digit_val (digit_char n) = n"
  by (simp add: digit_val_def of_char_digit_char)

lemma is_digit_digit_char: "n < 10 \<Longrightarrow> is_digit (digit_char n)"
  by (simp only: is_digit_def digit_char_in)

lemma four_digits_value:
  fixes n :: nat
  shows "1000 * (n div 1000) + 100 * (n div 100 mod 10) + 10 * (n div 10 mod 10) + n mod 10 = n"
proof -
  define q1 q2 q3 r0 r1 r2 where "q1 = n div 10" and "q2 = n div 100" and "q3 = n div 1000"
    and "r0 = n mod 10" and "r1 = n div 10 mod 10" and "r2 = n div 100 mod 10"
  have c: "n div 10 div 10 = n div 100" "n div 100 div 10 = n div 1000"
    by (simp_all add: div_mult2_eq[symmetric])
  have "n = 10 * q1 + r0" by (simp add: q1_def r0_def)
  moreover have "q1 = 10 * q2 + r1"
    using div_mult_mod_eq[of "n div 10" 10] by (simp add: q1_def q2_def r1_def c)
  moreover have "q2 = 10 * q3 + r2"
    using div_mult_mod_eq[of "n div 100" 10] by (simp add: q2_def q3_def r2_def c)
  ultimately have "1000 * q3 + 100 * r2 + 10 * r1 + r0 = n" by simp
  then show ?thesis by (simp only: q3_def r2_def r1_def r0_def)
qed

lemma parse_two:
  assumes "0 \<le> i" "i < 100"
  shows "int (parse_nat (fmt_02d i)) = i" "list_all is_digit (fmt_02d i)"
proof -
  have d: "nat i div 10 < 10" "nat i mod 10 < 10" using assms by simp_all
  have "parse_nat (fmt_02d i) = 10 * (nat i div 10) + nat i mod 10"
    by (simp add: fmt_02d_two[OF assms] parse_nat_def digit_val_digit_char d)
  also have "\<dots> = nat i" by simp
  finally show "int (parse_nat (fmt_02d i)) = i" using assms by simp
  show "list_all is_digit (fmt_02d i)"
    by (simp add: fmt_02d_two[OF assms] is_digit_digit_char d)
qed

lemma parse_four:
  assumes "1000 \<le> y" "y \<le> 9999"
  shows "int (parse_nat (fmt_Y y)) = y" "list_all is_digit (fmt_Y y)"
proof -
  define a3 a2 a1 a0 where "a3 = nat y div 1000" and "a2 = nat y div 100 mod 10"
    and "a1 = nat y div 10 mod 10" and "a0 = nat y mod 10"
  have d: "a3 < 10" "a2 < 10" "a1 < 10" "a0 < 10"
    using assms by (simp_all add: a3_def a2_def a1_def a0_def)
  have f: "fmt_Y y = [digit_char a3, digit_char a2, digit_char a1, digit_char a0]"
    unfolding a3_def a2_def a1_def a0_def by (rule fmt_Y_four[OF assms])
  have "parse_nat (fmt_Y y) = 1000 * a3 + 100 * a2 + 10 * a1 + a0"
    unfolding f by (simp add: parse_nat_def digit_val_digit_char d)
  also have "\<dots> = nat y"
    unfolding a3_def a2_def a1_def a0_def by (rule four_digits_value)
  finally show "int (parse_nat (fmt_Y y)) = y" using assms by simp
  show "list_all is_digit (fmt_Y y)"
    unfolding f by (simp add: is_digit_digit_char d)
qed

lemma fmt_02d_chars: "set (fmt_02d i) \<subseteq> set ''0123456789''"
  using dec_digits[of "nat i"] by (auto simp: fmt_02d_def zfill_def)

lemma strftime_chars: "stamp_chars (strftime_iso u)"
proof -
  define A where "A = set ''0123456789-T:Z''"
  have dA: "set ''0123456789'' \<subseteq> A" unfolding A_def by simp
  have seps: "CHR ''-'' \<in> A" "CHR ''T'' \<in> A" "CHR '':'' \<in> A" "CHR ''Z'' \<in> A"
    unfolding A_def by simp_all
  have y: "set (fmt_Y (year u)) \<subseteq> A"
    using dec_digits[of "nat (year u)"] dA unfolding fmt_Y_def by (rule subset_trans)
  have p: "set (fmt_02d i) \<subseteq> A" for i
    using fmt_02d_chars[of i] dA by (rule subset_trans)
  show ?thesis
    unfolding stamp_chars_def A_def[symmetric] strftime_iso_def
    using y p seps by simp
qed

text \<open>
  A value in range with a four-digit year is written in the shape, and the string spells
  its fields.
\<close>

lemma strftime_shape:
  assumes r: "in_range u" and y: "1000 \<le> year u"
  shows "iso_shape (strftime_iso u)"
    and "stamp_fields (strftime_iso u)
         = (year u, month u, day u, hour u, minute u, second u)"
proof -
  note a = in_range_two_digits[OF r]
  obtain Y where Y: "fmt_Y (year u) = Y" "length Y = 4" "list_all is_digit Y"
    "int (parse_nat Y) = year u"
    using fmt_Y_length[OF y a(12)] parse_four[OF y a(12)] by simp
  obtain M where M: "fmt_02d (month u) = M" "length M = 2" "list_all is_digit M"
    "int (parse_nat M) = month u"
    using fmt_02d_length[OF a(1,2)] parse_two[OF a(1,2)] by simp
  obtain D where D: "fmt_02d (day u) = D" "length D = 2" "list_all is_digit D"
    "int (parse_nat D) = day u"
    using fmt_02d_length[OF a(3,4)] parse_two[OF a(3,4)] by simp
  obtain H where H: "fmt_02d (hour u) = H" "length H = 2" "list_all is_digit H"
    "int (parse_nat H) = hour u"
    using fmt_02d_length[OF a(5,6)] parse_two[OF a(5,6)] by simp
  obtain N where N: "fmt_02d (minute u) = N" "length N = 2" "list_all is_digit N"
    "int (parse_nat N) = minute u"
    using fmt_02d_length[OF a(7,8)] parse_two[OF a(7,8)] by simp
  obtain S where S: "fmt_02d (second u) = S" "length S = 2" "list_all is_digit S"
    "int (parse_nat S) = second u"
    using fmt_02d_length[OF a(9,10)] parse_two[OF a(9,10)] by simp
  have s: "strftime_iso u = Y @ ''-'' @ M @ ''-'' @ D @ ''T'' @ H @ '':'' @ N @ '':'' @ S @ ''Z''"
    by (simp add: strftime_iso_def Y M D H N S)
  show "iso_shape (strftime_iso u)"
    unfolding s iso_shape_def
    using Y(2,3) M(2,3) D(2,3) H(2,3) N(2,3) S(2,3)
    by (simp add: nth_append)
  show "stamp_fields (strftime_iso u) = (year u, month u, day u, hour u, minute u, second u)"
    unfolding s stamp_fields_def
    using Y(2,4) M(2,4) D(2,4) H(2,4) N(2,4) S(2,4)
    by simp
qed

lemma strftime_seconds:
  assumes r: "in_range u" and y: "1000 \<le> year u"
  shows "stamp_seconds (strftime_iso u) = local_micros u div 1000000"
proof -
  define q where "q = ymd2ord (year u) (month u) (day u) * 86400
                        + hour u * 3600 + minute u * 60 + second u"
  have us: "0 \<le> microsecond u" "microsecond u < 1000000"
    using r by (simp_all add: in_range_def)
  have "local_micros u = 1000000 * q + microsecond u"
    by (simp add: local_micros_def q_def)
  from int_div_pos_eq[OF this us] have "local_micros u div 1000000 = q" .
  moreover have "stamp_seconds (strftime_iso u) = q"
    by (simp add: stamp_seconds_def strftime_shape(2)[OF r y] q_def)
  ultimately show ?thesis by simp
qed

subsection \<open>The created field\<close>

lemma created_utc_Inr:
  assumes "created_utc st = Inr s"
  obtains u where "astimezone_utc st = Inr u" "s = strftime_iso u"
  using assms by (auto simp: created_utc_def split: sum.splits)

lemma ebs_item_created:
  assumes "ebs_item c snap = Inr (Some r)"
  shows "\<exists>st. StartTime snap = PyDatetime st \<and> dt_le st c \<and> created_utc st = Inr (created r)"
  using assms by (auto simp: ebs_item_def split: pyval.splits if_splits sum.splits)

lemma db_item_created:
  assumes "db_item c snap = Inr (Some r)"
  shows "\<exists>st. SnapshotCreateTime snap = PyDatetime st \<and> dt_le st c
              \<and> created_utc st = Inr (created r)"
  using assms by (auto simp: db_item_def split: pyval.splits if_splits sum.splits)

lemma db_cluster_item_created:
  assumes "db_cluster_item c snap = Inr (Some r)"
  shows "\<exists>st. SnapshotCreateTime snap = PyDatetime st \<and> dt_le st c
              \<and> created_utc st = Inr (created r)"
  using assms by (auto simp: db_cluster_item_def split: pyval.splits if_splits sum.splits)

lemma list_item_created:
  assumes "list_item snap = Inr (Some p)"
  shows "\<exists>st. StartTime snap = PyDatetime st \<and> created_utc st = Inr (snd p)"
  using assms by (auto simp: list_item_def split: pyval.splits sum.splits)

lemma created_utc_format:
  assumes "created_utc st = Inr s"
  shows "\<exists>u. astimezone_utc st = Inr u \<and> utcoffset u = 0 \<and> utc_micros u = utc_micros st
             \<and> in_range u \<and> s = strftime_iso u
             \<and> (1000 \<le> year u \<longrightarrow>
                  iso_shape s
                  \<and> stamp_fields s = (year u, month u, day u, hour u, minute u, second u)
                  \<and> stamp_seconds s = utc_micros st div 1000000)"
proof -
  from assms obtain u where u: "astimezone_utc st = Inr u" "s = strftime_iso u"
    by (rule created_utc_Inr)
  note a = astimezone_utc_Inr[OF u(1)]
  have lm: "local_micros u = utc_micros st" using a(1,2) by (simp add: utc_micros_def)
  have "iso_shape s \<and> stamp_fields s = (year u, month u, day u, hour u, minute u, second u)
        \<and> stamp_seconds s = utc_micros st div 1000000" if "1000 \<le> year u"
    using strftime_shape[OF a(3) that] strftime_seconds[OF a(3) that] lm
    by (simp only: u(2))
  with u a show ?thesis by blast
qed


text \<open>
  X1, the part of C8 that the code meets: for every record emitted by any of the four
  enumerations, the created field is the creation time converted to UTC (the same instant, offset zero) and written by
  \<^verbatim>\<open>%Y-%m-%dT%H:%M:%SZ\<close>; when the UTC year has four digits (1000 to 9999) it has
  exactly the shape \<^verbatim>\<open>YYYY-MM-DDTHH:MM:SSZ\<close>, spells the UTC civil fields, and denotes
  the creation instant cut to whole seconds.
\<close>

theorem C8_created_format:
  "(ebs_item c snap = Inr (Some r)
      \<longrightarrow> (\<exists>t. StartTime snap = PyDatetime t \<and> created_utc t = Inr (created r)))
   \<and> (db_item c dbs = Inr (Some r)
      \<longrightarrow> (\<exists>t. SnapshotCreateTime dbs = PyDatetime t \<and> created_utc t = Inr (created r)))
   \<and> (db_cluster_item c cls = Inr (Some r)
      \<longrightarrow> (\<exists>t. SnapshotCreateTime cls = PyDatetime t \<and> created_utc t = Inr (created r)))
   \<and> (list_item snap = Inr (Some p)
      \<longrightarrow> (\<exists>t. StartTime snap = PyDatetime t \<and> created_utc t = Inr (snd p)))
   \<and> (created_utc st = Inr s
      \<longrightarrow> (\<exists>u. astimezone_utc st = Inr u \<and> utcoffset u = 0 \<and> utc_micros u = utc_micros st
             \<and> in_range u \<and> s = strftime_iso u
             \<and> (1000 \<le> year u \<longrightarrow>
                  iso_shape s
                  \<and> stamp_fields s = (year u, month u, day u, hour u, minute u, second u)
                  \<and> stamp_seconds s = utc_micros st div 1000000)))"
  using ebs_item_created[of c snap r] db_item_created[of c dbs r]
    db_cluster_item_created[of c cls r] list_item_created[of snap p]
    created_utc_format[of st s]
  by blast

theorem C8_created_format_witness:
  "ebs_item feb_first boundary_snapshot
     = Inr (Some \<lparr>name = ''snap-edge'', created = ''2024-02-01T00:00:00Z''\<rparr>)
   \<and> iso_shape ''2024-02-01T00:00:00Z''
   \<and> stamp_fields ''2024-02-01T00:00:00Z'' = (2024, 2, 1, 0, 0, 0)
   \<and> stamp_seconds ''2024-02-01T00:00:00Z'' = utc_micros feb_first_east div 1000000"
proof -
  have e: "ebs_item feb_first boundary_snapshot
     = Inr (Some \<lparr>name = ''snap-edge'', created = ''2024-02-01T00:00:00Z''\<rparr>)"
    by code_simp
  have c: "created_utc feb_first_east = Inr ''2024-02-01T00:00:00Z''"
    by code_simp
  have a: "astimezone_utc feb_first_east = Inr feb_first"
    by code_simp
  from C8_created_format[THEN conjunct2, THEN conjunct2, THEN conjunct2, THEN conjunct2,
      THEN mp, OF c]
  obtain u where u: "astimezone_utc feb_first_east = Inr u"
    and f: "1000 \<le> year u \<longrightarrow>
              iso_shape ''2024-02-01T00:00:00Z''
              \<and> stamp_fields ''2024-02-01T00:00:00Z''
                  = (year u, month u, day u, hour u, minute u, second u)
              \<and> stamp_seconds ''2024-02-01T00:00:00Z'' = utc_micros feb_first_east div 1000000"
    by blast
  from u a have "u = feb_first" by simp
  with f e show ?thesis by (simp add: feb_first_def)
qed

subsection \<open>Timestamps sort chronologically\<close>








subsection \<open>The generator loops\<close>

lemma for_items_append:
  "for_items body (xs @ ys) =
     (case for_items body xs of
        (rs, Some e) \<Rightarrow> (rs, Some e)
      | (rs, None) \<Rightarrow> (rs @ fst (for_items body ys), snd (for_items body ys)))"
  by (induction xs) (auto split: sum.splits option.splits prod.splits)

lemma for_items_skip:
  assumes "body x = Inr None"
  shows "for_items body (xs @ x # ys) = for_items body (xs @ ys)"
  using assms by (auto simp: for_items_append[of body xs] split: prod.splits option.splits)

lemma for_items_emit:
  assumes "body x = Inr (Some r)" "snd (for_items body xs) = None"
  shows "for_items body (xs @ x # ys)
         = (fst (for_items body xs) @ r # fst (for_items body ys), snd (for_items body ys))"
  using assms by (cases "for_items body xs") (auto simp: for_items_append[of body xs] split: prod.splits)

lemma for_pages_append:
  "for_pages items body (ps @ qs) =
     (case for_pages items body ps of
        (rs, Some e) \<Rightarrow> (rs, Some e)
      | (rs, None) \<Rightarrow> (rs @ fst (for_pages items body qs), snd (for_pages items body qs)))"
proof (induction ps)
  case Nil
  then show ?case by simp
next
  case (Cons p ps)
  then show ?case
    by (cases p) (auto split: option.splits prod.splits)
qed

lemma for_pages_single: "for_pages items body [Inr p] = for_items body (items p)"
  by (auto split: option.splits prod.splits)

lemma for_pages_cong_page:
  assumes "for_items body (items p) = for_items body (items p')"
  shows "for_pages items body (pre @ Inr p # post) = for_pages items body (pre @ Inr p' # post)"
  using assms by (auto simp: for_pages_append[of items body pre] split: prod.splits option.splits)

text \<open>An item the body skips leaves no trace in the run of the pages.\<close>

lemma for_pages_skip:
  assumes "body x = Inr None" "items p = xs @ x # ys" "items p' = xs @ ys"
  shows "for_pages items body (pre @ Inr p # post) = for_pages items body (pre @ Inr p' # post)"
  by (rule for_pages_cong_page) (use for_items_skip[of body x xs ys] assms in simp)

text \<open>
  An item the body turns into a row adds exactly that row, at its place, when the
  generator gets as far as the item.
\<close>

lemma for_pages_emit:
  assumes "body x = Inr (Some r)" "items p = xs @ x # ys" "items p' = xs @ ys" "items q = xs"
    and "snd (for_pages items body (pre @ [Inr q])) = None"
  shows "\<exists>A B. fst (for_pages items body (pre @ Inr p # post)) = A @ r # B
             \<and> fst (for_pages items body (pre @ Inr p' # post)) = A @ B
             \<and> A = fst (for_pages items body (pre @ [Inr q]))"
proof -
  obtain P where P: "for_pages items body pre = (P, None)"
    using assms(5) by (cases "for_pages items body pre")
      (auto simp: for_pages_append[of items body pre] split: option.splits)
  obtain X where X: "for_items body xs = (X, None)"
    using assms(5) P
    by (cases "for_items body xs")
      (auto simp: for_pages_append[of items body pre] for_pages_single assms(4)
        split: option.splits prod.splits simp del: for_pages.simps)
  define Y where "Y = for_items body ys"
  define Z where "Z = for_pages items body post"
  have 1: "for_items body (xs @ x # ys) = (X @ r # fst Y, snd Y)"
    using for_items_emit[of body x r xs ys] assms(1) X by (simp add: Y_def)
  have 2: "for_items body (xs @ ys) = (X @ fst Y, snd Y)"
    using X by (auto simp: for_items_append[of body xs] Y_def split: prod.splits option.splits)
  let ?B = "fst Y @ (case snd Y of None \<Rightarrow> fst Z | Some e \<Rightarrow> [])"
  have "fst (for_pages items body (pre @ Inr p # post)) = (P @ X) @ r # ?B"
    using P 1 by (auto simp: for_pages_append[of items body pre] assms(2) Z_def
        split: option.splits prod.splits)
  moreover have "fst (for_pages items body (pre @ Inr p' # post)) = (P @ X) @ ?B"
    using P 2 by (auto simp: for_pages_append[of items body pre] assms(3) Z_def
        split: option.splits prod.splits)
  moreover have "fst (for_pages items body (pre @ [Inr q])) = P @ X"
    using P X by (auto simp: for_pages_append[of items body pre] assms(4)
        split: option.splits prod.splits)
  ultimately show ?thesis
    by - (rule exI[where x = "P @ X"], rule exI[where x = ?B], simp)
qed

subsection \<open>The cutoff filter\<close>

lemma ebs_item_datetime:
  assumes "StartTime snap = PyDatetime st" "astimezone_utc st = Inr u"
  shows "ebs_item c snap =
           Inr (if utc_micros st \<le> utc_micros c
                then Some \<lparr>name = py_str (ebs_display_name snap), created = strftime_iso u\<rparr>
                else None)"
  using assms by (simp add: ebs_item_def dt_le_def created_utc_def)

lemma db_item_datetime:
  assumes "SnapshotCreateTime snap = PyDatetime st" "astimezone_utc st = Inr u"
  shows "db_item c snap =
           Inr (if utc_micros st \<le> utc_micros c
                then Some \<lparr>name = py_str (db_display_name snap), created = strftime_iso u\<rparr>
                else None)"
  using assms by (simp add: db_item_def dt_le_def created_utc_def)

lemma db_cluster_item_datetime:
  assumes "SnapshotCreateTime snap = PyDatetime st" "astimezone_utc st = Inr u"
  shows "db_cluster_item c snap =
           Inr (if utc_micros st \<le> utc_micros c
                then Some \<lparr>name = py_str (db_cluster_display_name snap),
                           created = strftime_iso u\<rparr>
                else None)"
  using assms by (simp add: db_cluster_item_def dt_le_def created_utc_def)

lemma list_item_datetime:
  assumes "StartTime snap = PyDatetime st" "astimezone_utc st = Inr u"
  shows "list_item snap = Inr (Some (py_str (ebs_display_name snap), strftime_iso u))"
  using assms by (simp add: list_item_def created_utc_def)

text \<open>
  What one item adds to the rows of its page: the rows before it, its own row if the body
  makes one, the rows after it.
\<close>

lemma for_items_item:
  assumes "body x = Inr v" "snd (for_items body xs) = None"
  shows "fst (for_items body (xs @ x # ys)) =
           fst (for_items body xs) @ (case v of None \<Rightarrow> [] | Some r \<Rightarrow> [r])
             @ fst (for_items body ys)"
  using assms
  by (cases "for_items body xs"; cases v)
    (auto simp: for_items_append[of body xs] split: prod.splits option.splits)

lemma loops_single_page:
  "ebs_loop [Inr \<lparr>Snapshots = Some xs\<rparr>] c = for_items (ebs_item c) xs"
  "db_loop [Inr \<lparr>DBSnapshots = Some ds\<rparr>] c = for_items (db_item c) ds"
  "db_cluster_loop [Inr \<lparr>DBClusterSnapshots = Some cs\<rparr>] c = for_items (db_cluster_item c) cs"
  "list_rows [Inr \<lparr>Snapshots = Some xs\<rparr>] = for_items list_item xs"
  by (simp_all add: ebs_loop_def db_loop_def db_cluster_loop_def list_rows_def get_list_def
      for_pages_single del: for_pages.simps)

text \<open>
  C1, as stated, fails: \<^verbatim>\<open>list_ebs_snapshots.py\<close> has no cutoff. For the cutoff thirty
  days before 2024-03-02, an item created one microsecond after the cutoff is left out by
  \<^verbatim>\<open>extract_snapshots.py\<close> and listed by \<^verbatim>\<open>list_ebs_snapshots.py\<close>.
\<close>

theorem C1_counterexample:
  "cutoff \<lparr>now_utc = mar_second, write_error = None\<rparr> 30 = Inr feb_first
   \<and> StartTime recent_snapshot = PyDatetime just_after
   \<and> \<not> utc_micros just_after \<le> utc_micros feb_first
   \<and> ebs_loop [Inr \<lparr>Snapshots = Some [recent_snapshot]\<rparr>] feb_first = ([], None)
   \<and> list_rows [Inr \<lparr>Snapshots = Some [recent_snapshot]\<rparr>]
        = ([(''snap-new'', ''2024-02-01T00:00:00Z'')], None)"
  by code_simp

text \<open>
  C1, amended: for every item whose creation time is a timezone-aware datetime that can be
  converted to UTC, each of the three enumerators of \<^verbatim>\<open>extract_snapshots.py\<close> emits a
  record for the item, at the item's place among the rows of its page, if and only if its
  instant is at or before the cutoff (inclusive), and never when it is newer;
  \<^verbatim>\<open>list_ebs_snapshots.py\<close> applies no cutoff and emits a record for every such item.
\<close>

theorem C1_cutoff_filter:
  assumes "astimezone_utc st = Inr u"
  shows
   "(StartTime snap = PyDatetime st \<longrightarrow>
       ebs_item c snap =
         Inr (if utc_micros st \<le> utc_micros c
              then Some \<lparr>name = py_str (ebs_display_name snap), created = strftime_iso u\<rparr>
              else None)
       \<and> (snd (ebs_loop [Inr \<lparr>Snapshots = Some xs\<rparr>] c) = None \<longrightarrow>
            fst (ebs_loop [Inr \<lparr>Snapshots = Some (xs @ snap # ys)\<rparr>] c) =
              fst (ebs_loop [Inr \<lparr>Snapshots = Some xs\<rparr>] c)
              @ (if utc_micros st \<le> utc_micros c
                 then [\<lparr>name = py_str (ebs_display_name snap), created = strftime_iso u\<rparr>]
                 else [])
              @ fst (ebs_loop [Inr \<lparr>Snapshots = Some ys\<rparr>] c))
       \<and> list_item snap = Inr (Some (py_str (ebs_display_name snap), strftime_iso u))
       \<and> (snd (list_rows [Inr \<lparr>Snapshots = Some xs\<rparr>]) = None \<longrightarrow>
            fst (list_rows [Inr \<lparr>Snapshots = Some (xs @ snap # ys)\<rparr>]) =
              fst (list_rows [Inr \<lparr>Snapshots = Some xs\<rparr>])
              @ [(py_str (ebs_display_name snap), strftime_iso u)]
              @ fst (list_rows [Inr \<lparr>Snapshots = Some ys\<rparr>])))
    \<and> (SnapshotCreateTime dbs = PyDatetime st \<longrightarrow>
       db_item c dbs =
         Inr (if utc_micros st \<le> utc_micros c
              then Some \<lparr>name = py_str (db_display_name dbs), created = strftime_iso u\<rparr>
              else None)
       \<and> (snd (db_loop [Inr \<lparr>DBSnapshots = Some ds\<rparr>] c) = None \<longrightarrow>
            fst (db_loop [Inr \<lparr>DBSnapshots = Some (ds @ dbs # ds')\<rparr>] c) =
              fst (db_loop [Inr \<lparr>DBSnapshots = Some ds\<rparr>] c)
              @ (if utc_micros st \<le> utc_micros c
                 then [\<lparr>name = py_str (db_display_name dbs), created = strftime_iso u\<rparr>]
                 else [])
              @ fst (db_loop [Inr \<lparr>DBSnapshots = Some ds'\<rparr>] c)))
    \<and> (SnapshotCreateTime cls = PyDatetime st \<longrightarrow>
       db_cluster_item c cls =
         Inr (if utc_micros st \<le> utc_micros c
              then Some \<lparr>name = py_str (db_cluster_display_name cls),
                         created = strftime_iso u\<rparr>
              else None)
       \<and> (snd (db_cluster_loop [Inr \<lparr>DBClusterSnapshots = Some cs\<rparr>] c) = None \<longrightarrow>
            fst (db_cluster_loop [Inr \<lparr>DBClusterSnapshots = Some (cs @ cls # cs')\<rparr>] c) =
              fst (db_cluster_loop [Inr \<lparr>DBClusterSnapshots = Some cs\<rparr>] c)
              @ (if utc_micros st \<le> utc_micros c
                 then [\<lparr>name = py_str (db_cluster_display_name cls),
                        created = strftime_iso u\<rparr>]
                 else [])
              @ fst (db_cluster_loop [Inr \<lparr>DBClusterSnapshots = Some cs'\<rparr>] c)))"
proof (intro conjI impI)
  assume s: "StartTime snap = PyDatetime st"
  note e = ebs_item_datetime[OF s assms, of c] and l = list_item_datetime[OF s assms]
  show "ebs_item c snap =
         Inr (if utc_micros st \<le> utc_micros c
              then Some \<lparr>name = py_str (ebs_display_name snap), created = strftime_iso u\<rparr>
              else None)"
    by (rule e)
  show "list_item snap = Inr (Some (py_str (ebs_display_name snap), strftime_iso u))"
    by (rule l)
  {
    assume "snd (ebs_loop [Inr \<lparr>Snapshots = Some xs\<rparr>] c) = None"
    then have "snd (for_items (ebs_item c) xs) = None" by (simp only: loops_single_page)
    from for_items_item[of "ebs_item c" snap _ xs ys, OF e this]
    show "fst (ebs_loop [Inr \<lparr>Snapshots = Some (xs @ snap # ys)\<rparr>] c) =
              fst (ebs_loop [Inr \<lparr>Snapshots = Some xs\<rparr>] c)
              @ (if utc_micros st \<le> utc_micros c
                 then [\<lparr>name = py_str (ebs_display_name snap), created = strftime_iso u\<rparr>]
                 else [])
              @ fst (ebs_loop [Inr \<lparr>Snapshots = Some ys\<rparr>] c)"
      by (simp add: loops_single_page)
  }
  {
    assume "snd (list_rows [Inr \<lparr>Snapshots = Some xs\<rparr>]) = None"
    then have "snd (for_items list_item xs) = None" by (simp only: loops_single_page)
    from for_items_item[of list_item snap _ xs ys, OF l this]
    show "fst (list_rows [Inr \<lparr>Snapshots = Some (xs @ snap # ys)\<rparr>]) =
              fst (list_rows [Inr \<lparr>Snapshots = Some xs\<rparr>])
              @ [(py_str (ebs_display_name snap), strftime_iso u)]
              @ fst (list_rows [Inr \<lparr>Snapshots = Some ys\<rparr>])"
      by (simp add: loops_single_page)
  }
next
  assume s: "SnapshotCreateTime dbs = PyDatetime st"
  note e = db_item_datetime[OF s assms, of c]
  show "db_item c dbs =
         Inr (if utc_micros st \<le> utc_micros c
              then Some \<lparr>name = py_str (db_display_name dbs), created = strftime_iso u\<rparr>
              else None)"
    by (rule e)
  assume "snd (db_loop [Inr \<lparr>DBSnapshots = Some ds\<rparr>] c) = None"
  then have "snd (for_items (db_item c) ds) = None" by (simp only: loops_single_page)
  from for_items_item[of "db_item c" dbs _ ds ds', OF e this]
  show "fst (db_loop [Inr \<lparr>DBSnapshots = Some (ds @ dbs # ds')\<rparr>] c) =
              fst (db_loop [Inr \<lparr>DBSnapshots = Some ds\<rparr>] c)
              @ (if utc_micros st \<le> utc_micros c
                 then [\<lparr>name = py_str (db_display_name dbs), created = strftime_iso u\<rparr>]
                 else [])
              @ fst (db_loop [Inr \<lparr>DBSnapshots = Some ds'\<rparr>] c)"
    by (simp add: loops_single_page)
next
  assume s: "SnapshotCreateTime cls = PyDatetime st"
  note e = db_cluster_item_datetime[OF s assms, of c]
  show "db_cluster_item c cls =
         Inr (if utc_micros st \<le> utc_micros c
              then Some \<lparr>name = py_str (db_cluster_display_name cls),
                         created = strftime_iso u\<rparr>
              else None)"
    by (rule e)
  assume "snd (db_cluster_loop [Inr \<lparr>DBClusterSnapshots = Some cs\<rparr>] c) = None"
  then have "snd (for_items (db_cluster_item c) cs) = None" by (simp only: loops_single_page)
  from for_items_item[of "db_cluster_item c" cls _ cs cs', OF e this]
  show "fst (db_cluster_loop [Inr \<lparr>DBClusterSnapshots = Some (cs @ cls # cs')\<rparr>] c) =
              fst (db_cluster_loop [Inr \<lparr>DBClusterSnapshots = Some cs\<rparr>] c)
              @ (if utc_micros st \<le> utc_micros c
                 then [\<lparr>name = py_str (db_cluster_display_name cls),
                        created = strftime_iso u\<rparr>]
                 else [])
              @ fst (db_cluster_loop [Inr \<lparr>DBClusterSnapshots = Some cs'\<rparr>] c)"
    by (simp add: loops_single_page)
qed


theorem C1_cutoff_filter_witness:
  "utc_micros feb_first_east = utc_micros feb_first
   \<and> ebs_item feb_first boundary_snapshot
       = Inr (Some \<lparr>name = ''snap-edge'', created = ''2024-02-01T00:00:00Z''\<rparr>)
   \<and> fst (ebs_loop [Inr \<lparr>Snapshots = Some [recent_snapshot, boundary_snapshot, tagged_snapshot]\<rparr>]
            feb_first)
       = [\<lparr>name = ''snap-edge'', created = ''2024-02-01T00:00:00Z''\<rparr>,
          \<lparr>name = ''backup-a'', created = ''2024-01-15T12:00:00Z''\<rparr>]
   \<and> fst (list_rows [Inr \<lparr>Snapshots = Some [recent_snapshot, boundary_snapshot, tagged_snapshot]\<rparr>])
       = [(''snap-new'', ''2024-02-01T00:00:00Z''), (''snap-edge'', ''2024-02-01T00:00:00Z''),
          (''backup-a'', ''2024-01-15T12:00:00Z'')]
   \<and> db_item feb_first db_boundary
       = Inr (Some \<lparr>name = ''rds:edge'', created = ''2024-02-01T00:00:00Z''\<rparr>)
   \<and> db_cluster_item feb_first cluster_boundary
       = Inr (Some \<lparr>name = ''aurora-edge'', created = ''2024-02-01T00:00:00Z''\<rparr>)"
proof -
  have a: "astimezone_utc feb_first_east = Inr feb_first" by code_simp
  have eq: "utc_micros feb_first_east = utc_micros feb_first" by code_simp
  have s: "strftime_iso feb_first = ''2024-02-01T00:00:00Z''" by code_simp
  have n: "py_str (ebs_display_name boundary_snapshot) = ''snap-edge''"
    "py_str (db_display_name db_boundary) = ''rds:edge''"
    "py_str (db_cluster_display_name cluster_boundary) = ''aurora-edge''"
    by code_simp+
  have h: "StartTime boundary_snapshot = PyDatetime feb_first_east"
    "SnapshotCreateTime db_boundary = PyDatetime feb_first_east"
    "SnapshotCreateTime cluster_boundary = PyDatetime feb_first_east"
    by (simp_all add: boundary_snapshot_def db_boundary_def cluster_boundary_def)
  have pre: "ebs_loop [Inr \<lparr>Snapshots = Some [recent_snapshot]\<rparr>] feb_first = ([], None)"
    "list_rows [Inr \<lparr>Snapshots = Some [recent_snapshot]\<rparr>]
       = ([(''snap-new'', ''2024-02-01T00:00:00Z'')], None)"
    by code_simp+
  have post: "ebs_loop [Inr \<lparr>Snapshots = Some [tagged_snapshot]\<rparr>] feb_first
       = ([\<lparr>name = ''backup-a'', created = ''2024-01-15T12:00:00Z''\<rparr>], None)"
    "list_rows [Inr \<lparr>Snapshots = Some [tagged_snapshot]\<rparr>]
       = ([(''backup-a'', ''2024-01-15T12:00:00Z'')], None)"
    by code_simp+
  note t = C1_cutoff_filter[OF a, where snap = boundary_snapshot and c = feb_first
      and xs = "[recent_snapshot]" and ys = "[tagged_snapshot]"
      and dbs = db_boundary and cls = cluster_boundary]
  from t h eq s n pre post show ?thesis by simp
qed

subsection \<open>Items without a creation time\<close>

lemma items_skipped:
  "\<forall>t. StartTime bad \<noteq> PyDatetime t \<Longrightarrow> ebs_item c bad = Inr None"
  "\<forall>t. StartTime bad \<noteq> PyDatetime t \<Longrightarrow> list_item bad = Inr None"
  "\<forall>t. SnapshotCreateTime dbad \<noteq> PyDatetime t \<Longrightarrow> db_item c dbad = Inr None"
  "\<forall>t. SnapshotCreateTime cbad \<noteq> PyDatetime t \<Longrightarrow> db_cluster_item c cbad = Inr None"
  by (auto simp: ebs_item_def list_item_def db_item_def db_cluster_item_def split: pyval.splits)

text \<open>
  C5: an item whose creation time is absent or is not a datetime leaves no trace: run over
  a page sequence that holds the item, each of the four loops gives the rows and raises
  the exception (none, when there is none) that it gives with the item taken out, so the
  other items are still processed and no warning or error comes from it. Against the
  same input with the item well-formed (its creation time replaced by a datetime \<open>st\<close>)
  and emitted as row \<open>r\<close>, the rows are the same with that one row taken out, whenever
  the loop gets as far as the item; and when the well-formed item is filtered out by the
  cutoff, the two outputs are the same.
\<close>

theorem C5_silent_skip:
  assumes "\<forall>t. StartTime bad \<noteq> PyDatetime t"
    and "\<forall>t. SnapshotCreateTime dbad \<noteq> PyDatetime t"
    and "\<forall>t. SnapshotCreateTime cbad \<noteq> PyDatetime t"
  shows
   "ebs_item c bad = Inr None \<and> list_item bad = Inr None
    \<and> db_item c dbad = Inr None \<and> db_cluster_item c cbad = Inr None
    \<and> ebs_loop (pre @ Inr \<lparr>Snapshots = Some (xs @ bad # ys)\<rparr> # post) c
        = ebs_loop (pre @ Inr \<lparr>Snapshots = Some (xs @ ys)\<rparr> # post) c
    \<and> list_rows (pre @ Inr \<lparr>Snapshots = Some (xs @ bad # ys)\<rparr> # post)
        = list_rows (pre @ Inr \<lparr>Snapshots = Some (xs @ ys)\<rparr> # post)
    \<and> db_loop (dpre @ Inr \<lparr>DBSnapshots = Some (ds @ dbad # ds')\<rparr> # dpost) c
        = db_loop (dpre @ Inr \<lparr>DBSnapshots = Some (ds @ ds')\<rparr> # dpost) c
    \<and> db_cluster_loop (cpre @ Inr \<lparr>DBClusterSnapshots = Some (cs @ cbad # cs')\<rparr> # cpost) c
        = db_cluster_loop (cpre @ Inr \<lparr>DBClusterSnapshots = Some (cs @ cs')\<rparr> # cpost) c
    \<and> (ebs_item c (bad\<lparr>StartTime := PyDatetime st\<rparr>) = Inr (Some r)
        \<longrightarrow> snd (ebs_loop (pre @ [Inr \<lparr>Snapshots = Some xs\<rparr>]) c) = None
        \<longrightarrow> (\<exists>A B. fst (ebs_loop (pre @ Inr \<lparr>Snapshots
                          = Some (xs @ bad\<lparr>StartTime := PyDatetime st\<rparr> # ys)\<rparr> # post) c)
                       = A @ r # B
                   \<and> fst (ebs_loop (pre @ Inr \<lparr>Snapshots = Some (xs @ bad # ys)\<rparr> # post) c)
                       = A @ B))
    \<and> (list_item (bad\<lparr>StartTime := PyDatetime st\<rparr>) = Inr (Some p)
        \<longrightarrow> snd (list_rows (pre @ [Inr \<lparr>Snapshots = Some xs\<rparr>])) = None
        \<longrightarrow> (\<exists>A B. fst (list_rows (pre @ Inr \<lparr>Snapshots
                          = Some (xs @ bad\<lparr>StartTime := PyDatetime st\<rparr> # ys)\<rparr> # post))
                       = A @ p # B
                   \<and> fst (list_rows (pre @ Inr \<lparr>Snapshots = Some (xs @ bad # ys)\<rparr> # post))
                       = A @ B))
    \<and> (db_item c (dbad\<lparr>SnapshotCreateTime := PyDatetime st\<rparr>) = Inr (Some r)
        \<longrightarrow> snd (db_loop (dpre @ [Inr \<lparr>DBSnapshots = Some ds\<rparr>]) c) = None
        \<longrightarrow> (\<exists>A B. fst (db_loop (dpre @ Inr \<lparr>DBSnapshots
                          = Some (ds @ dbad\<lparr>SnapshotCreateTime := PyDatetime st\<rparr> # ds')\<rparr>
                          # dpost) c)
                       = A @ r # B
                   \<and> fst (db_loop (dpre @ Inr \<lparr>DBSnapshots = Some (ds @ dbad # ds')\<rparr>
                          # dpost) c)
                       = A @ B))
    \<and> (db_cluster_item c (cbad\<lparr>SnapshotCreateTime := PyDatetime st\<rparr>) = Inr (Some r)
        \<longrightarrow> snd (db_cluster_loop (cpre @ [Inr \<lparr>DBClusterSnapshots = Some cs\<rparr>]) c) = None
        \<longrightarrow> (\<exists>A B. fst (db_cluster_loop (cpre @ Inr \<lparr>DBClusterSnapshots
                          = Some (cs @ cbad\<lparr>SnapshotCreateTime := PyDatetime st\<rparr> # cs')\<rparr>
                          # cpost) c)
                       = A @ r # B
                   \<and> fst (db_cluster_loop (cpre @ Inr \<lparr>DBClusterSnapshots
                          = Some (cs @ cbad # cs')\<rparr> # cpost) c)
                       = A @ B))
    \<and> (ebs_item c (bad\<lparr>StartTime := PyDatetime st\<rparr>) = Inr None
        \<longrightarrow> ebs_loop (pre @ Inr \<lparr>Snapshots
                          = Some (xs @ bad\<lparr>StartTime := PyDatetime st\<rparr> # ys)\<rparr> # post) c
            = ebs_loop (pre @ Inr \<lparr>Snapshots = Some (xs @ bad # ys)\<rparr> # post) c)
    \<and> (db_item c (dbad\<lparr>SnapshotCreateTime := PyDatetime st\<rparr>) = Inr None
        \<longrightarrow> db_loop (dpre @ Inr \<lparr>DBSnapshots
                          = Some (ds @ dbad\<lparr>SnapshotCreateTime := PyDatetime st\<rparr> # ds')\<rparr>
                          # dpost) c
            = db_loop (dpre @ Inr \<lparr>DBSnapshots = Some (ds @ dbad # ds')\<rparr> # dpost) c)
    \<and> (db_cluster_item c (cbad\<lparr>SnapshotCreateTime := PyDatetime st\<rparr>) = Inr None
        \<longrightarrow> db_cluster_loop (cpre @ Inr \<lparr>DBClusterSnapshots
                          = Some (cs @ cbad\<lparr>SnapshotCreateTime := PyDatetime st\<rparr> # cs')\<rparr>
                          # cpost) c
            = db_cluster_loop (cpre @ Inr \<lparr>DBClusterSnapshots
                          = Some (cs @ cbad # cs')\<rparr> # cpost) c)"
proof -
  note sk = items_skipped(1)[OF assms(1), of c] items_skipped(2)[OF assms(1)]
    items_skipped(3)[OF assms(2), of c] items_skipped(4)[OF assms(3), of c]
  have 1: "ebs_loop (pre @ Inr \<lparr>Snapshots = Some (xs @ bad # ys)\<rparr> # post) c
        = ebs_loop (pre @ Inr \<lparr>Snapshots = Some (xs @ ys)\<rparr> # post) c"
    unfolding ebs_loop_def
    by (rule for_pages_skip[where x = bad and xs = xs and ys = ys])
      (simp_all add: sk get_list_def)
  have 2: "list_rows (pre @ Inr \<lparr>Snapshots = Some (xs @ bad # ys)\<rparr> # post)
        = list_rows (pre @ Inr \<lparr>Snapshots = Some (xs @ ys)\<rparr> # post)"
    unfolding list_rows_def
    by (rule for_pages_skip[where x = bad and xs = xs and ys = ys])
      (simp_all add: sk get_list_def)
  have 3: "db_loop (dpre @ Inr \<lparr>DBSnapshots = Some (ds @ dbad # ds')\<rparr> # dpost) c
        = db_loop (dpre @ Inr \<lparr>DBSnapshots = Some (ds @ ds')\<rparr> # dpost) c"
    unfolding db_loop_def
    by (rule for_pages_skip[where x = dbad and xs = ds and ys = ds'])
      (simp_all add: sk get_list_def)
  have 4: "db_cluster_loop (cpre @ Inr \<lparr>DBClusterSnapshots = Some (cs @ cbad # cs')\<rparr> # cpost) c
        = db_cluster_loop (cpre @ Inr \<lparr>DBClusterSnapshots = Some (cs @ cs')\<rparr> # cpost) c"
    unfolding db_cluster_loop_def
    by (rule for_pages_skip[where x = cbad and xs = cs and ys = cs'])
      (simp_all add: sk get_list_def)
  have 5: "\<exists>A B. fst (ebs_loop (pre @ Inr \<lparr>Snapshots
                          = Some (xs @ bad\<lparr>StartTime := PyDatetime st\<rparr> # ys)\<rparr> # post) c)
                       = A @ r # B
                   \<and> fst (ebs_loop (pre @ Inr \<lparr>Snapshots = Some (xs @ bad # ys)\<rparr> # post) c)
                       = A @ B"
    if "ebs_item c (bad\<lparr>StartTime := PyDatetime st\<rparr>) = Inr (Some r)"
      "snd (ebs_loop (pre @ [Inr \<lparr>Snapshots = Some xs\<rparr>]) c) = None"
    using for_pages_emit[where body = "ebs_item c" and items = "\<lambda>p. get_list (Snapshots p)"
        and x = "bad\<lparr>StartTime := PyDatetime st\<rparr>" and r = r and xs = xs and ys = ys
        and p = "\<lparr>Snapshots = Some (xs @ bad\<lparr>StartTime := PyDatetime st\<rparr> # ys)\<rparr>"
        and p' = "\<lparr>Snapshots = Some (xs @ ys)\<rparr>" and q = "\<lparr>Snapshots = Some xs\<rparr>"
        and pre = pre and post = post] that 1
    by (auto simp: ebs_loop_def get_list_def)
  have 6: "\<exists>A B. fst (list_rows (pre @ Inr \<lparr>Snapshots
                          = Some (xs @ bad\<lparr>StartTime := PyDatetime st\<rparr> # ys)\<rparr> # post))
                       = A @ p # B
                   \<and> fst (list_rows (pre @ Inr \<lparr>Snapshots = Some (xs @ bad # ys)\<rparr> # post))
                       = A @ B"
    if "list_item (bad\<lparr>StartTime := PyDatetime st\<rparr>) = Inr (Some p)"
      "snd (list_rows (pre @ [Inr \<lparr>Snapshots = Some xs\<rparr>])) = None"
    using for_pages_emit[where body = list_item and items = "\<lambda>p. get_list (Snapshots p)"
        and x = "bad\<lparr>StartTime := PyDatetime st\<rparr>" and r = p and xs = xs and ys = ys
        and p = "\<lparr>Snapshots = Some (xs @ bad\<lparr>StartTime := PyDatetime st\<rparr> # ys)\<rparr>"
        and p' = "\<lparr>Snapshots = Some (xs @ ys)\<rparr>" and q = "\<lparr>Snapshots = Some xs\<rparr>"
        and pre = pre and post = post] that 2
    by (auto simp: list_rows_def get_list_def)
  have 7: "\<exists>A B. fst (db_loop (dpre @ Inr \<lparr>DBSnapshots
                          = Some (ds @ dbad\<lparr>SnapshotCreateTime := PyDatetime st\<rparr> # ds')\<rparr>
                          # dpost) c)
                       = A @ r # B
                   \<and> fst (db_loop (dpre @ Inr \<lparr>DBSnapshots = Some (ds @ dbad # ds')\<rparr>
                          # dpost) c)
                       = A @ B"
    if "db_item c (dbad\<lparr>SnapshotCreateTime := PyDatetime st\<rparr>) = Inr (Some r)"
      "snd (db_loop (dpre @ [Inr \<lparr>DBSnapshots = Some ds\<rparr>]) c) = None"
    using for_pages_emit[where body = "db_item c" and items = "\<lambda>p. get_list (DBSnapshots p)"
        and x = "dbad\<lparr>SnapshotCreateTime := PyDatetime st\<rparr>" and r = r
        and xs = ds and ys = ds'
        and p = "\<lparr>DBSnapshots = Some (ds @ dbad\<lparr>SnapshotCreateTime := PyDatetime st\<rparr> # ds')\<rparr>"
        and p' = "\<lparr>DBSnapshots = Some (ds @ ds')\<rparr>" and q = "\<lparr>DBSnapshots = Some ds\<rparr>"
        and pre = dpre and post = dpost] that 3
    by (auto simp: db_loop_def get_list_def)
  have 8: "\<exists>A B. fst (db_cluster_loop (cpre @ Inr \<lparr>DBClusterSnapshots
                          = Some (cs @ cbad\<lparr>SnapshotCreateTime := PyDatetime st\<rparr> # cs')\<rparr>
                          # cpost) c)
                       = A @ r # B
                   \<and> fst (db_cluster_loop (cpre @ Inr \<lparr>DBClusterSnapshots
                          = Some (cs @ cbad # cs')\<rparr> # cpost) c)
                       = A @ B"
    if "db_cluster_item c (cbad\<lparr>SnapshotCreateTime := PyDatetime st\<rparr>) = Inr (Some r)"
      "snd (db_cluster_loop (cpre @ [Inr \<lparr>DBClusterSnapshots = Some cs\<rparr>]) c) = None"
    using for_pages_emit[where body = "db_cluster_item c"
        and items = "\<lambda>p. get_list (DBClusterSnapshots p)"
        and x = "cbad\<lparr>SnapshotCreateTime := PyDatetime st\<rparr>" and r = r
        and xs = cs and ys = cs'
        and p = "\<lparr>DBClusterSnapshots
                   = Some (cs @ cbad\<lparr>SnapshotCreateTime := PyDatetime st\<rparr> # cs')\<rparr>"
        and p' = "\<lparr>DBClusterSnapshots = Some (cs @ cs')\<rparr>"
        and q = "\<lparr>DBClusterSnapshots = Some cs\<rparr>"
        and pre = cpre and post = cpost] that 4
    by (auto simp: db_cluster_loop_def get_list_def)
  have 9: "ebs_loop (pre @ Inr \<lparr>Snapshots
                          = Some (xs @ bad\<lparr>StartTime := PyDatetime st\<rparr> # ys)\<rparr> # post) c
            = ebs_loop (pre @ Inr \<lparr>Snapshots = Some (xs @ bad # ys)\<rparr> # post) c"
    if "ebs_item c (bad\<lparr>StartTime := PyDatetime st\<rparr>) = Inr None"
  proof -
    have "ebs_loop (pre @ Inr \<lparr>Snapshots
                          = Some (xs @ bad\<lparr>StartTime := PyDatetime st\<rparr> # ys)\<rparr> # post) c
        = ebs_loop (pre @ Inr \<lparr>Snapshots = Some (xs @ ys)\<rparr> # post) c"
      unfolding ebs_loop_def
      by (rule for_pages_skip[where x = "bad\<lparr>StartTime := PyDatetime st\<rparr>"
            and xs = xs and ys = ys]) (simp_all add: that get_list_def)
    with 1 show ?thesis by simp
  qed
  have 10: "db_loop (dpre @ Inr \<lparr>DBSnapshots
                          = Some (ds @ dbad\<lparr>SnapshotCreateTime := PyDatetime st\<rparr> # ds')\<rparr>
                          # dpost) c
            = db_loop (dpre @ Inr \<lparr>DBSnapshots = Some (ds @ dbad # ds')\<rparr> # dpost) c"
    if "db_item c (dbad\<lparr>SnapshotCreateTime := PyDatetime st\<rparr>) = Inr None"
  proof -
    have "db_loop (dpre @ Inr \<lparr>DBSnapshots
                          = Some (ds @ dbad\<lparr>SnapshotCreateTime := PyDatetime st\<rparr> # ds')\<rparr>
                          # dpost) c
        = db_loop (dpre @ Inr \<lparr>DBSnapshots = Some (ds @ ds')\<rparr> # dpost) c"
      unfolding db_loop_def
      by (rule for_pages_skip[where x = "dbad\<lparr>SnapshotCreateTime := PyDatetime st\<rparr>"
            and xs = ds and ys = ds']) (simp_all add: that get_list_def)
    with 3 show ?thesis by simp
  qed
  have 11: "db_cluster_loop (cpre @ Inr \<lparr>DBClusterSnapshots
                          = Some (cs @ cbad\<lparr>SnapshotCreateTime := PyDatetime st\<rparr> # cs')\<rparr>
                          # cpost) c
            = db_cluster_loop (cpre @ Inr \<lparr>DBClusterSnapshots
                          = Some (cs @ cbad # cs')\<rparr> # cpost) c"
    if "db_cluster_item c (cbad\<lparr>SnapshotCreateTime := PyDatetime st\<rparr>) = Inr None"
  proof -
    have "db_cluster_loop (cpre @ Inr \<lparr>DBClusterSnapshots
                          = Some (cs @ cbad\<lparr>SnapshotCreateTime := PyDatetime st\<rparr> # cs')\<rparr>
                          # cpost) c
        = db_cluster_loop (cpre @ Inr \<lparr>DBClusterSnapshots = Some (cs @ cs')\<rparr> # cpost) c"
      unfolding db_cluster_loop_def
      by (rule for_pages_skip[where x = "cbad\<lparr>SnapshotCreateTime := PyDatetime st\<rparr>"
            and xs = cs and ys = cs']) (simp_all add: that get_list_def)
    with 4 show ?thesis by simp
  qed
  from sk 1 2 3 4 5 6 7 8 9 10 11 show ?thesis by blast
qed

theorem C5_silent_skip_witness:
  "ebs_item feb_first string_time_snapshot = Inr None
   \<and> list_item string_time_snapshot = Inr None
   \<and> db_item feb_first db_timeless = Inr None
   \<and> db_cluster_item feb_first cluster_timeless = Inr None
   \<and> ebs_loop [Inr \<lparr>Snapshots = Some [tagged_snapshot, string_time_snapshot, boundary_snapshot]\<rparr>]
        feb_first
       = ([\<lparr>name = ''backup-a'', created = ''2024-01-15T12:00:00Z''\<rparr>,
           \<lparr>name = ''snap-edge'', created = ''2024-02-01T00:00:00Z''\<rparr>], None)
   \<and> list_rows [Inr \<lparr>Snapshots = Some [tagged_snapshot, string_time_snapshot, boundary_snapshot]\<rparr>]
       = ([(''backup-a'', ''2024-01-15T12:00:00Z''), (''snap-edge'', ''2024-02-01T00:00:00Z'')],
          None)
   \<and> db_loop [Inr \<lparr>DBSnapshots = Some [db_timeless, db_boundary]\<rparr>] feb_first
       = ([\<lparr>name = ''rds:edge'', created = ''2024-02-01T00:00:00Z''\<rparr>], None)
   \<and> db_cluster_loop [Inr \<lparr>DBClusterSnapshots = Some [cluster_boundary, cluster_timeless]\<rparr>]
        feb_first
       = ([\<lparr>name = ''aurora-edge'', created = ''2024-02-01T00:00:00Z''\<rparr>], None)
   \<and> (\<exists>A B. fst (ebs_loop [Inr \<lparr>Snapshots = Some [tagged_snapshot,
                     string_time_snapshot\<lparr>StartTime := PyDatetime noon_utc\<rparr>,
                     boundary_snapshot]\<rparr>] feb_first)
               = A @ \<lparr>name = ''snap-str'', created = ''2024-01-15T12:00:00Z''\<rparr> # B
             \<and> fst (ebs_loop [Inr \<lparr>Snapshots = Some [tagged_snapshot, string_time_snapshot,
                     boundary_snapshot]\<rparr>] feb_first) = A @ B)"
proof -
  have h: "\<forall>t. StartTime string_time_snapshot \<noteq> PyDatetime t"
    "\<forall>t. SnapshotCreateTime db_timeless \<noteq> PyDatetime t"
    "\<forall>t. SnapshotCreateTime cluster_timeless \<noteq> PyDatetime t"
    by (simp_all add: string_time_snapshot_def db_timeless_def cluster_timeless_def)
  have e: "ebs_loop [Inr \<lparr>Snapshots = Some [tagged_snapshot, boundary_snapshot]\<rparr>] feb_first
       = ([\<lparr>name = ''backup-a'', created = ''2024-01-15T12:00:00Z''\<rparr>,
           \<lparr>name = ''snap-edge'', created = ''2024-02-01T00:00:00Z''\<rparr>], None)"
    "list_rows [Inr \<lparr>Snapshots = Some [tagged_snapshot, boundary_snapshot]\<rparr>]
       = ([(''backup-a'', ''2024-01-15T12:00:00Z''), (''snap-edge'', ''2024-02-01T00:00:00Z'')],
          None)"
    "db_loop [Inr \<lparr>DBSnapshots = Some [db_boundary]\<rparr>] feb_first
       = ([\<lparr>name = ''rds:edge'', created = ''2024-02-01T00:00:00Z''\<rparr>], None)"
    "db_cluster_loop [Inr \<lparr>DBClusterSnapshots = Some [cluster_boundary]\<rparr>] feb_first
       = ([\<lparr>name = ''aurora-edge'', created = ''2024-02-01T00:00:00Z''\<rparr>], None)"
    by code_simp+
  have w: "ebs_item feb_first (string_time_snapshot\<lparr>StartTime := PyDatetime noon_utc\<rparr>)
       = Inr (Some \<lparr>name = ''snap-str'', created = ''2024-01-15T12:00:00Z''\<rparr>)"
    by code_simp
  have p: "snd (ebs_loop [Inr \<lparr>Snapshots = Some [tagged_snapshot]\<rparr>] feb_first) = None"
    by code_simp
  note t = C5_silent_skip[OF h, where c = feb_first and pre = "[]" and post = "[]"
      and xs = "[tagged_snapshot]" and ys = "[boundary_snapshot]"
      and dpre = "[]" and dpost = "[]" and ds = "[]" and ds' = "[db_boundary]"
      and cpre = "[]" and cpost = "[]" and cs = "[cluster_boundary]" and cs' = "[]"
      and st = noon_utc and p = "(''snap-str'', ''2024-01-15T12:00:00Z'')"
      and r = "\<lparr>name = ''snap-str'', created = ''2024-01-15T12:00:00Z''\<rparr>"]
  from t show ?thesis by (simp (no_asm_use) add: e w p) blast
qed


subsection \<open>The report\<close>

lemma sort_rows_sorted:
  "sorted (map (\<lambda>r. (created r, name r)) (sort_rows rows))"
  by (simp add: sort_rows_def)

lemma sort_rows_mset: "mset (sort_rows rows) = mset rows"
  by (simp add: sort_rows_def)

lemma sort_pairs_sorted: "sorted (map (\<lambda>p. (snd p, fst p)) (sort_pairs ps))"
  by (simp add: sort_pairs_def)

lemma sort_pairs_mset: "mset (sort_pairs ps) = mset ps"
  by (simp add: sort_pairs_def)

lemma sorted_key_explicit:
  fixes f :: "'a \<Rightarrow> string" and g :: "'a \<Rightarrow> string"
  assumes "sorted (map (\<lambda>r. (f r, g r)) xs)"
  shows "sorted_wrt (\<lambda>a b. f a < f b \<or> f a = f b \<and> g a \<le> g b) xs"
proof -
  from assms have "sorted_wrt (\<lambda>a b. (f a, g a) \<le> (f b, g b)) xs"
    by (simp add: sorted_map)
  then show ?thesis
    by (rule sorted_wrt_mono_rel[rotated]) (auto simp: less_eq_prod_def)
qed

lemma sort_rows_permuted:
  assumes "mset rows' = mset rows"
  shows "sort_rows rows' = sort_rows rows"
  unfolding sort_rows_def
proof (rule sort_key_eq_sort_key[OF assms])
  show "inj_on (\<lambda>r. (created r, name r)) (set rows')"
    by (rule inj_onI) simp
qed

lemma sort_pairs_permuted:
  assumes "mset ps' = mset ps"
  shows "sort_pairs ps' = sort_pairs ps"
  unfolding sort_pairs_def
proof (rule sort_key_eq_sort_key[OF assms])
  show "inj_on (\<lambda>r. (snd r, fst r)) (set ps')"
    by (rule inj_onI) (simp add: prod_eq_iff)
qed

lemma file_text_lines:
  "file_text rows = concat (map (\<lambda>r. name r @ [CHR 0x09] @ created r @ [CHR 0x0A]) rows)"
  by (simp add: file_text_def row_line_def[abs_def] TAB_def NL_def)

lemma pairs_text_lines:
  "pairs_text ps = concat (map (\<lambda>p. fst p @ [CHR 0x09] @ snd p @ [CHR 0x0A]) ps)"
  by (simp add: pairs_text_def pair_line_def[abs_def] TAB_def NL_def)

lemma length_sort_pairs: "length (sort_pairs ps) = length ps"
  by (simp add: sort_pairs_def)

text \<open>What a run that finished has gone through.\<close>

lemma main_Finished:
  assumes "main a session h = Finished console file"
  shows "\<exists>c regions rows warnings.
           cutoff h (days a) = Inr c \<and> resolve_regions a session = Inr regions
           \<and> aggregate session c (service a \<in> {''ebs'', ''both''})
                 (service a \<in> {''rds'', ''both''}) regions ([], []) = Inr (rows, warnings)
           \<and> file = Some (file_text (sort_rows rows))
           \<and> console = warnings @ [''Wrote '' @ dec (length rows) @ '' records to '' @ output a]"
  using assms
  by (auto simp: main_def split: option.splits sum.splits prod.splits)

lemma list_main_Finished:
  assumes "list_main reg out session h = Finished console file"
  shows "\<exists>rows. list_rows (describe_snapshots session reg) = (rows, None)
           \<and> file = (if truthy out then Some (pairs_text (sort_pairs rows)) else None)
           \<and> console = map (\<lambda>p. fst p @ [CHR 0x09] @ snd p) (sort_pairs rows)
                 @ (if truthy out
                    then [''Wrote '' @ dec (length rows) @ '' records to '' @ py_str out]
                    else [])"
  using assms
  by (auto simp: list_main_def Let_def TAB_def length_sort_pairs split: option.splits sum.splits prod.splits if_splits)

text \<open>
  C3: the reporter of each script sorts the rows by the pair (created, name), compared as
  strings, created first; the sorted rows are the collected rows, each as often as it was
  collected. The file is the concatenation, in that order, of name, TAB, created and a
  newline for each row, with nothing before, between or after: the line that counts the
  records goes to the console. So two collections with the same rows in any order give
  the same file, byte for byte.
\<close>

theorem C3_sorted_report:
  "sorted (map (\<lambda>r. (created r, name r)) (sort_rows rows))
   \<and> sorted_wrt (\<lambda>a b. created a < created b \<or> created a = created b \<and> name a \<le> name b)
        (sort_rows rows)
   \<and> mset (sort_rows rows) = mset rows
   \<and> file_text (sort_rows rows)
       = concat (map (\<lambda>r. name r @ [CHR 0x09] @ created r @ [CHR 0x0A]) (sort_rows rows))
   \<and> (mset rows' = mset rows \<longrightarrow> file_text (sort_rows rows') = file_text (sort_rows rows))
   \<and> sorted (map (\<lambda>p. (snd p, fst p)) (sort_pairs ps))
   \<and> sorted_wrt (\<lambda>a b. snd a < snd b \<or> snd a = snd b \<and> fst a \<le> fst b) (sort_pairs ps)
   \<and> mset (sort_pairs ps) = mset ps
   \<and> pairs_text (sort_pairs ps)
       = concat (map (\<lambda>p. fst p @ [CHR 0x09] @ snd p @ [CHR 0x0A]) (sort_pairs ps))
   \<and> (mset ps' = mset ps \<longrightarrow> pairs_text (sort_pairs ps') = pairs_text (sort_pairs ps))
   \<and> (main a session h = Finished console file \<longrightarrow>
        (\<exists>c regions collected warnings.
           cutoff h (days a) = Inr c \<and> resolve_regions a session = Inr regions
           \<and> aggregate session c (service a \<in> {''ebs'', ''both''})
                 (service a \<in> {''rds'', ''both''}) regions ([], []) = Inr (collected, warnings)
           \<and> file = Some (file_text (sort_rows collected))
           \<and> console = warnings
                 @ [''Wrote '' @ dec (length collected) @ '' records to '' @ output a]))
   \<and> (list_main reg out session h = Finished console' file' \<longrightarrow>
        (\<exists>collected. list_rows (describe_snapshots session reg) = (collected, None)
           \<and> file' = (if truthy out then Some (pairs_text (sort_pairs collected)) else None)
           \<and> console' = map (\<lambda>p. fst p @ [CHR 0x09] @ snd p) (sort_pairs collected)
                 @ (if truthy out
                    then [''Wrote '' @ dec (length collected) @ '' records to '' @ py_str out]
                    else [])))"
proof -
  note a = sort_rows_sorted[of rows] sorted_key_explicit[OF sort_rows_sorted[of rows]]
    sort_rows_mset[of rows] file_text_lines[of "sort_rows rows"]
  note b = sort_pairs_sorted[of ps]
    sorted_key_explicit[OF sort_pairs_sorted[of ps], simplified]
    sort_pairs_mset[of ps] pairs_text_lines[of "sort_pairs ps"]
  have c: "file_text (sort_rows rows') = file_text (sort_rows rows)" if "mset rows' = mset rows"
    using sort_rows_permuted[OF that] by simp
  have d: "pairs_text (sort_pairs ps') = pairs_text (sort_pairs ps)" if "mset ps' = mset ps"
    using sort_pairs_permuted[OF that] by simp
  note e = main_Finished[of a session h console "file"]
    list_main_Finished[of reg out session h console' file']
  from a b c d e show ?thesis by blast
qed

theorem C3_sorted_report_witness:
  "sort_rows two_rows = rev two_rows
   \<and> file_text (sort_rows two_rows)
       = ''early'' @ [CHR 0x09] @ ''2024-01-15T12:00:00Z'' @ [CHR 0x0A]
         @ ''late'' @ [CHR 0x09] @ ''2024-02-01T00:00:00Z'' @ [CHR 0x0A]
   \<and> file_text (sort_rows (rev two_rows)) = file_text (sort_rows two_rows)
   \<and> pairs_text (sort_pairs [(''b'', ''2024-01-15T12:00:00Z''), (''a'', ''2024-01-15T12:00:00Z'')])
       = pairs_text (sort_pairs [(''a'', ''2024-01-15T12:00:00Z''), (''b'', ''2024-01-15T12:00:00Z'')])
   \<and> main default_args inventory march_host
       = Finished [''Wrote 4 records to snapshots.txt'']
           (Some (''backup-a'' @ [CHR 0x09] @ ''2024-01-15T12:00:00Z'' @ [CHR 0x0A]
                  @ ''rds:prod-2024-01-15'' @ [CHR 0x09] @ ''2024-01-15T12:00:00Z'' @ [CHR 0x0A]
                  @ ''aurora-edge'' @ [CHR 0x09] @ ''2024-02-01T00:00:00Z'' @ [CHR 0x0A]
                  @ ''snap-edge'' @ [CHR 0x09] @ ''2024-02-01T00:00:00Z'' @ [CHR 0x0A]))
   \<and> list_main ''sa-east-1'' None inventory march_host
       = Finished [''backup-a'' @ [CHR 0x09] @ ''2024-01-15T12:00:00Z'',
                   ''snap-edge'' @ [CHR 0x09] @ ''2024-02-01T00:00:00Z'',
                   ''snap-new'' @ [CHR 0x09] @ ''2024-02-01T00:00:00Z''] None"
proof -
  have m: "mset (rev two_rows) = mset two_rows" by simp
  have p: "mset [(''b'', ''2024-01-15T12:00:00Z''), (''a'', ''2024-01-15T12:00:00Z'')]
         = mset [(''a'', ''2024-01-15T12:00:00Z''), (''b'', ''2024-01-15T12:00:00Z'')]"
    by simp
  have s: "sort_rows two_rows = rev two_rows" by code_simp
  have f: "file_text (rev two_rows)
       = ''early'' @ [CHR 0x09] @ ''2024-01-15T12:00:00Z'' @ [CHR 0x0A]
         @ ''late'' @ [CHR 0x09] @ ''2024-02-01T00:00:00Z'' @ [CHR 0x0A]"
    by code_simp
  have e: "main default_args inventory march_host
       = Finished [''Wrote 4 records to snapshots.txt'']
           (Some (''backup-a'' @ [CHR 0x09] @ ''2024-01-15T12:00:00Z'' @ [CHR 0x0A]
                  @ ''rds:prod-2024-01-15'' @ [CHR 0x09] @ ''2024-01-15T12:00:00Z'' @ [CHR 0x0A]
                  @ ''aurora-edge'' @ [CHR 0x09] @ ''2024-02-01T00:00:00Z'' @ [CHR 0x0A]
                  @ ''snap-edge'' @ [CHR 0x09] @ ''2024-02-01T00:00:00Z'' @ [CHR 0x0A]))"
    by code_simp
  have l: "list_main ''sa-east-1'' None inventory march_host
       = Finished [''backup-a'' @ [CHR 0x09] @ ''2024-01-15T12:00:00Z'',
                   ''snap-edge'' @ [CHR 0x09] @ ''2024-02-01T00:00:00Z'',
                   ''snap-new'' @ [CHR 0x09] @ ''2024-02-01T00:00:00Z''] None"
    by code_simp
  note t = C3_sorted_report[where rows = two_rows and rows' = "rev two_rows"
      and ps = "[(''a'', ''2024-01-15T12:00:00Z''), (''b'', ''2024-01-15T12:00:00Z'')]"
      and ps' = "[(''b'', ''2024-01-15T12:00:00Z''), (''a'', ''2024-01-15T12:00:00Z'')]"]
  from t m p have
    "file_text (sort_rows (rev two_rows)) = file_text (sort_rows two_rows)"
    "pairs_text (sort_pairs [(''b'', ''2024-01-15T12:00:00Z''), (''a'', ''2024-01-15T12:00:00Z'')])
       = pairs_text (sort_pairs [(''a'', ''2024-01-15T12:00:00Z''), (''b'', ''2024-01-15T12:00:00Z'')])"
    by blast+
  with s f e l show ?thesis by simp
qed

end
